theory Spec2Isabelle
  imports Main "HOL-Library.Monad_Syntax"
begin

section \<open>UART echo server with ON/OFF commands (uart-echo-freertos.c)\<close>

text \<open>
  A shallow embedding of \<^verbatim>\<open>src/main/uart-echo-freertos.c\<close>. C \<^verbatim>\<open>char\<close> and
  \<^verbatim>\<open>uint8_t\<close> are \<^typ>\<open>char\<close> (8 bits), a C buffer is a \<^typ>\<open>string\<close> of the buffer's
  size, and a C string is the part of a buffer before its first NUL. Every access to a
  buffer is checked: a step that reads or writes outside a buffer, frees or dereferences
  a pointer that is not allocated, or uses a queue handle that is still NULL, has the
  value \<open>None\<close>.
\<close>

subsection \<open>Constants of the source\<close>

definition BUF_SIZE :: nat where
  "BUF_SIZE = 1024"

definition GPIO_CONTROL :: nat where
  "GPIO_CONTROL = 2"

definition UART_QUEUE_SIZE :: nat where
  "UART_QUEUE_SIZE = 20"

definition NUL :: char where
  "NUL = CHR 0x00"

definition LF :: char where
  "LF = CHR 0x0A"

definition CR :: char where
  "CR = CHR 0x0D"

subsection \<open>Buffers and the C string functions the source calls\<close>

text \<open>\<^verbatim>\<open>buf[i]\<close> read and \<^verbatim>\<open>buf[i] = v\<close>, with the index a signed offset from the start.\<close>

definition load :: "string \<Rightarrow> int \<Rightarrow> char option" where
  "load buf i = (if 0 \<le> i \<and> i < int (length buf) then Some (buf ! nat i) else None)"

definition store :: "string \<Rightarrow> int \<Rightarrow> char \<Rightarrow> string option" where
  "store buf i v = (if 0 \<le> i \<and> i < int (length buf) then Some (buf[nat i := v]) else None)"

text \<open>\<^verbatim>\<open>strlen\<close> of the C library: the number of bytes before the first NUL; running off the buffer is a fault.\<close>

fun strlen :: "string \<Rightarrow> nat option" where
  "strlen [] = None"
| "strlen (c # cs) = (if c = NUL then Some 0 else map_option Suc (strlen cs))"

text \<open>\<^verbatim>\<open>strcmp\<close> of the C library: the difference of the first pair of bytes that differ, 0 when both
  strings end together.\<close>

fun strcmp :: "string \<Rightarrow> string \<Rightarrow> int option" where
  "strcmp (a # as) (b # bs) =
     (if a \<noteq> b then Some (of_char a - of_char b)
      else if a = NUL then Some 0
      else strcmp as bs)"
| "strcmp _ _ = None"

text \<open>A string literal of the source: its characters and the terminating NUL.\<close>

definition lit :: "string \<Rightarrow> string" where
  "lit s = s @ [NUL]"

text \<open>What \<^verbatim>\<open>%s\<close> prints, and what the specification calls the text of an entry.\<close>

definition c_str :: "string \<Rightarrow> string" where
  "c_str buf = takeWhile (\<lambda>c. c \<noteq> NUL) buf"

text \<open>The specification's trimmed text of a command: the text without its trailing
  \<^verbatim>\<open>\n\<close> and \<^verbatim>\<open>\r\<close> characters. This definition follows the specification's words;
  \<open>trim\<close> below follows the code.\<close>

definition is_eol :: "char \<Rightarrow> bool" where
  "is_eol c = (c = LF \<or> c = CR)"

definition trimmed_text :: "string \<Rightarrow> string" where
  "trimmed_text t = rev (dropWhile is_eol (rev t))"

subsection \<open>The trim loop of the command stage (lines 155-156)\<close>

text \<open>
  \<^verbatim>\<open>while (end >= cmd && (*end == '\n' || *end == '\r')) *end-- = '\0';\<close>
  with \<open>e\<close> the offset \<^verbatim>\<open>end - cmd\<close>.
\<close>

function trim_loop :: "string \<Rightarrow> int \<Rightarrow> string option" where
  "trim_loop cmd e =
     (if e \<ge> 0 then
        (case load cmd e of
           None \<Rightarrow> None
         | Some c \<Rightarrow>
             if c = LF \<or> c = CR then
               (case store cmd e NUL of
                  None \<Rightarrow> None
                | Some cmd' \<Rightarrow> trim_loop cmd' (e - 1))
             else Some cmd)
      else Some cmd)"
  by pat_completeness auto
termination
  by (relation "measure (\<lambda>(cmd, e). nat (e + 1))") auto

text \<open>\<^verbatim>\<open>char *end = cmd + strlen(cmd) - 1;\<close> followed by the loop.\<close>

definition trim :: "string \<Rightarrow> string option" where
  "trim cmd = do { n \<leftarrow> strlen cmd; trim_loop cmd (int n - 1) }"

subsection \<open>The state of the system and what it does to the outside\<close>

datatype log_level = LOGE | LOGW | LOGI

text \<open>Modelled from the spec: the event type \<^verbatim>\<open>uart_event_type_t\<close> is declared in the
  vendor's header, which is not part of the source. The variants are those the
  specification lists: Data, Overflow, BufferFull, FrameError, ParityError, and any other
  kind with its code.\<close>

datatype uart_event_type =
    UART_DATA
  | UART_FIFO_OVF
  | UART_BUFFER_FULL
  | UART_FRAME_ERR
  | UART_PARITY_ERR
  | UART_OTHER int

record uart_event =
  ev_type :: uart_event_type
  ev_size :: nat

datatype log_arg = ArgStr string | ArgEv uart_event_type

text \<open>The calls that reach outside the program, in the order they are made.\<close>

datatype action =
    Log log_level string "log_arg list"
  | UartRead nat
  | UartWrite string
  | UartFlushInput
  | EventQueueReset
  | Strdup "nat option"
  | QueueSend nat bool
  | Free nat
  | GpioSetLevel nat nat

datatype task_state = NotCreated | Created | InLoop | Deleted

text \<open>Modelled from the spec: a FreeRTOS queue, whose code is the kernel's and not part of
  the source. The specification's relay queue is a bounded FIFO of a fixed capacity.\<close>

record 'a queue =
  q_capacity :: nat
  q_items :: "'a list"

text \<open>Modelled from the spec: \<^verbatim>\<open>xQueueCreate(n, size)\<close> gives an empty queue of capacity
  \<open>n\<close>. That it can fail is an answer of the environment, in \<open>boot_env\<close> below.\<close>

definition xQueueCreate :: "nat \<Rightarrow> 'a queue" where
  "xQueueCreate n = \<lparr>q_capacity = n, q_items = []\<rparr>"

text \<open>Modelled from the spec: \<^verbatim>\<open>xQueueSend\<close> with a timeout. The send appends the item
  and returns \<^verbatim>\<open>pdPASS\<close> (here \<open>True\<close>) when there is room; on a queue that stays full
  until the timeout it fails and leaves the queue as it was.\<close>

definition xQueueSend :: "'a queue \<Rightarrow> 'a \<Rightarrow> bool \<times> 'a queue" where
  "xQueueSend q x =
     (if length (q_items q) < q_capacity q then (True, q\<lparr>q_items := q_items q @ [x]\<rparr>)
      else (False, q))"

text \<open>Modelled from the spec: \<^verbatim>\<open>xQueueReceive\<close> takes the oldest item; \<open>None\<close> is the
  empty queue, on which the caller stays blocked.\<close>

definition xQueueReceive :: "'a queue \<Rightarrow> ('a \<times> 'a queue) option" where
  "xQueueReceive q = (case q_items q of [] \<Rightarrow> None | x # xs \<Rightarrow> Some (x, q\<lparr>q_items := xs\<rparr>))"

text \<open>Modelled from the spec: \<^verbatim>\<open>xQueueReset\<close> empties the queue.\<close>

definition xQueueReset :: "'a queue \<Rightarrow> 'a queue" where
  "xQueueReset q = q\<lparr>q_items := []\<rparr>"

text \<open>
  The two static queue handles (NULL until created), the level of each GPIO pin, the
  heap blocks that hold command entries (by address), the receive buffer \<^verbatim>\<open>data\<close> of
  the UART task, the two tasks, and the trace of actions.
\<close>

record sys =
  gpio :: "nat \<Rightarrow> nat"
  uart_event_queue :: "uart_event queue option"
  command_queue :: "nat queue option"
  heap :: "nat \<rightharpoonup> string"
  data :: string
  uart_task :: task_state
  command_task :: task_state
  trace :: "action list"

text \<open>A call that reaches outside is appended to the trace.\<close>

definition emit :: "action \<Rightarrow> sys \<Rightarrow> sys" where
  "emit a s = s\<lparr>trace := trace s @ [a]\<rparr>"

text \<open>\<^verbatim>\<open>ESP_LOGE\<close>, \<^verbatim>\<open>ESP_LOGW\<close>, \<^verbatim>\<open>ESP_LOGI\<close>: a log record with the format string of
  the source and its arguments.\<close>

definition esp_log :: "log_level \<Rightarrow> string \<Rightarrow> log_arg list \<Rightarrow> sys \<Rightarrow> sys" where
  "esp_log lvl fmt args s = emit (Log lvl fmt args) s"

text \<open>Modelled from the spec: \<^verbatim>\<open>gpio_set_level(pin, level)\<close> is the vendor driver's; it
  sets the level of the output pin.\<close>

definition gpio_set_level :: "nat \<Rightarrow> nat \<Rightarrow> sys \<Rightarrow> sys" where
  "gpio_set_level pin lvl s = emit (GpioSetLevel pin lvl) (s\<lparr>gpio := (gpio s)(pin := lvl)\<rparr>)"

text \<open>\<^verbatim>\<open>free\<close> of a block that is not allocated is a fault.\<close>

definition free :: "nat \<Rightarrow> sys \<Rightarrow> sys option" where
  "free p s =
     (if p \<in> dom (heap s) then Some (emit (Free p) (s\<lparr>heap := (heap s)(p := None)\<rparr>))
      else None)"

subsection \<open>The command stage (command\_processor\_task)\<close>

text \<open>The body of \<^verbatim>\<open>if (xQueueReceive(command_queue, &cmd, portMAX_DELAY) == pdPASS)\<close>,
  lines 154-170, for the pointer \<open>cmd\<close> that was received. The trim works in place on the
  block \<open>cmd\<close> points to.\<close>

definition process_command :: "nat \<Rightarrow> sys \<Rightarrow> sys option" where
  "process_command cmd s = do {
     buf \<leftarrow> heap s cmd;
     buf' \<leftarrow> trim buf;
     let s1 = esp_log LOGI ''Processing command: %s'' [ArgStr (c_str buf')]
                (s\<lparr>heap := (heap s)(cmd \<mapsto> buf')\<rparr>);
     on \<leftarrow> strcmp buf' (lit ''ON'');
     s2 \<leftarrow> (if on = 0 then
             Some (esp_log LOGI ''GPIO turned ON'' [] (gpio_set_level GPIO_CONTROL 1 s1))
           else do {
             off \<leftarrow> strcmp buf' (lit ''OFF'');
             Some (if off = 0 then
                     esp_log LOGI ''GPIO turned OFF'' [] (gpio_set_level GPIO_CONTROL 0 s1)
                   else esp_log LOGI ''Unknown command: %s'' [ArgStr (c_str buf')] s1)
           });
     free cmd s2
   }"

text \<open>One turn of the task's \<^verbatim>\<open>while (1)\<close>: with nothing in the queue the task stays
  blocked in \<^verbatim>\<open>xQueueReceive\<close> and the state is as it was.\<close>

definition command_processor_iteration :: "sys \<Rightarrow> sys option" where
  "command_processor_iteration s = do {
     q \<leftarrow> command_queue s;
     (case xQueueReceive q of
        None \<Rightarrow> Some s
      | Some (cmd, q') \<Rightarrow> process_command cmd (s\<lparr>command_queue := Some q'\<rparr>))
   }"

subsection \<open>The receive/echo stage (uart\_event\_task)\<close>

text \<open>
  What the environment answers during one \<^verbatim>\<open>UART_DATA\<close> event: the bytes the driver
  has pending when \<^verbatim>\<open>uart_read_bytes\<close> is called (or that the driver reports an error),
  and the address \<^verbatim>\<open>strdup\<close> allocates (or NULL, here \<open>None\<close>).
\<close>

datatype rx_result = RxError | RxBytes string

record data_env =
  rx :: rx_result
  dup :: "nat option"

text \<open>Modelled from the spec: \<^verbatim>\<open>uart_read_bytes(UART_PORT, data, n, ticks)\<close> is the vendor
  driver's. It reads up to \<open>n\<close> bytes: the driver copies at most \<open>n\<close> of its pending bytes
  to the start of \<^verbatim>\<open>data\<close> and returns their number (0 when the timeout passes with
  nothing pending), or -1 on error.\<close>

definition uart_read_bytes :: "rx_result \<Rightarrow> nat \<Rightarrow> sys \<Rightarrow> (int \<times> sys) option" where
  "uart_read_bytes r n s =
     (case r of
        RxError \<Rightarrow> Some (- 1, emit (UartRead n) s)
      | RxBytes pending \<Rightarrow>
          (let bs = take n pending in
           if length bs \<le> length (data s) then
             Some (int (length bs), emit (UartRead n) (s\<lparr>data := bs @ drop (length bs) (data s)\<rparr>))
           else None))"

text \<open>Modelled from the spec: \<^verbatim>\<open>uart_write_bytes(UART_PORT, data, len)\<close> is the vendor
  driver's. A blocking write: it reads \<open>len\<close> bytes of \<^verbatim>\<open>data\<close> and sends them.\<close>

definition uart_write_bytes :: "int \<Rightarrow> sys \<Rightarrow> sys option" where
  "uart_write_bytes len s =
     (if 0 \<le> len \<and> len \<le> int (length (data s)) then
        Some (emit (UartWrite (take (nat len) (data s))) s)
      else None)"

text \<open>\<^verbatim>\<open>strdup(src)\<close> of the C library: a new block with the bytes of \<open>src\<close> up to and
  including its first NUL, at the address the allocator gives, or NULL when the allocation
  fails.\<close>

definition strdup :: "string \<Rightarrow> nat option \<Rightarrow> sys \<Rightarrow> (nat option \<times> sys) option" where
  "strdup src a s = do {
     n \<leftarrow> strlen src;
     (case a of
        None \<Rightarrow> Some (None, emit (Strdup None) s)
      | Some p \<Rightarrow> Some (Some p, emit (Strdup (Some p)) (s\<lparr>heap := (heap s)(p \<mapsto> take (Suc n) src)\<rparr>)))
   }"

text \<open>The \<^verbatim>\<open>case UART_DATA\<close> block, lines 84-109.\<close>

definition on_uart_data :: "data_env \<Rightarrow> uart_event \<Rightarrow> sys \<Rightarrow> sys option" where
  "on_uart_data env event s =
     (let rx_size = ev_size event in
      if rx_size = 0 then Some s
      else
        let rx_size = (if rx_size \<ge> BUF_SIZE then BUF_SIZE - 1 else rx_size) in
        do {
          (len, s1) \<leftarrow> uart_read_bytes (rx env) rx_size s;
          if len > 0 then do {
            d \<leftarrow> store (data s1) len NUL;
            let s2 = esp_log LOGI ''Received: %s'' [ArgStr (c_str d)] (s1\<lparr>data := d\<rparr>);
            s3 \<leftarrow> uart_write_bytes len s2;
            (cmd_copy, s4) \<leftarrow> strdup (data s3) (dup env) s3;
            (case cmd_copy of
               Some p \<Rightarrow> do {
                 q \<leftarrow> command_queue s4;
                 let (sent, q') = xQueueSend q p;
                 let s5 = emit (QueueSend p sent) (s4\<lparr>command_queue := Some q'\<rparr>);
                 if \<not> sent then do {
                   s6 \<leftarrow> free p s5;
                   Some (esp_log LOGE ''Failed to send command to queue'' [] s6)
                 } else Some s5
               }
             | None \<Rightarrow> Some (esp_log LOGE ''Failed to duplicate command string'' [] s4))
          } else Some s1
        })"

text \<open>The \<^verbatim>\<open>switch (event.type)\<close>, lines 83-131. \<^verbatim>\<open>uart_flush_input\<close> is the vendor
  driver's and acts on the driver's input alone; it is kept in the trace.\<close>

definition handle_uart_event :: "data_env \<Rightarrow> uart_event \<Rightarrow> sys \<Rightarrow> sys option" where
  "handle_uart_event env event s =
     (case ev_type event of
        UART_DATA \<Rightarrow> on_uart_data env event s
      | UART_FIFO_OVF \<Rightarrow> do {
          let s1 = esp_log LOGW ''UART FIFO overflow'' [] s;
          let s2 = emit UartFlushInput s1;
          q \<leftarrow> uart_event_queue s2;
          Some (emit EventQueueReset (s2\<lparr>uart_event_queue := Some (xQueueReset q)\<rparr>))
        }
      | UART_BUFFER_FULL \<Rightarrow> do {
          let s1 = esp_log LOGW ''UART ring buffer full'' [] s;
          let s2 = emit UartFlushInput s1;
          q \<leftarrow> uart_event_queue s2;
          Some (emit EventQueueReset (s2\<lparr>uart_event_queue := Some (xQueueReset q)\<rparr>))
        }
      | UART_FRAME_ERR \<Rightarrow> Some (esp_log LOGW ''UART error event: %d'' [ArgEv (ev_type event)] s)
      | UART_PARITY_ERR \<Rightarrow> Some (esp_log LOGW ''UART error event: %d'' [ArgEv (ev_type event)] s)
      | UART_OTHER c \<Rightarrow> Some (esp_log LOGI ''Unhandled UART event: %d'' [ArgEv (ev_type event)] s))"

text \<open>One turn of the task's \<^verbatim>\<open>while (1)\<close>: with no event the task stays blocked.\<close>

definition uart_event_task_iteration :: "data_env \<Rightarrow> sys \<Rightarrow> sys option" where
  "uart_event_task_iteration env s = do {
     q \<leftarrow> uart_event_queue s;
     (case xQueueReceive q of
        None \<Rightarrow> Some s
      | Some (event, q') \<Rightarrow> handle_uart_event env event (s\<lparr>uart_event_queue := Some q'\<rparr>))
   }"

text \<open>The task's prologue, lines 73-79: \<^verbatim>\<open>malloc(BUF_SIZE)\<close> gives a block of
  \<^verbatim>\<open>BUF_SIZE\<close> bytes of unknown content \<open>fill\<close>, or fails, and then the task deletes
  itself.\<close>

definition uart_event_task_start :: "(nat \<Rightarrow> char) option \<Rightarrow> sys \<Rightarrow> sys" where
  "uart_event_task_start m s =
     (case m of
        None \<Rightarrow> (esp_log LOGE ''Failed to allocate memory for UART buffer'' [] s)\<lparr>uart_task := Deleted\<rparr>
      | Some fill \<Rightarrow> s\<lparr>data := map fill [0..<BUF_SIZE], uart_task := InLoop\<rparr>)"

definition command_processor_task_start :: "sys \<Rightarrow> sys" where
  "command_processor_task_start s = s\<lparr>command_task := InLoop\<rparr>"

subsection \<open>Startup (app\_main)\<close>

text \<open>The results of the calls of \<^verbatim>\<open>app_main\<close> that can fail.\<close>

record boot_env =
  gpio_config_ok :: bool
  uart_param_config_ok :: bool
  uart_set_pin_ok :: bool
  uart_driver_install_ok :: bool
  queue_create_ok :: bool
  uart_task_create_ok :: bool
  command_task_create_ok :: bool

text \<open>\<^verbatim>\<open>ESP_ERROR_CHECK\<close> aborts the program on a failure; otherwise \<^verbatim>\<open>app_main\<close>
  returns.\<close>

datatype boot_result = Aborted sys | Returned sys

text \<open>The system before \<^verbatim>\<open>app_main\<close>: pin levels \<open>g\<close> as the hardware left them, both
  queue handles NULL, no task.\<close>

definition power_on :: "(nat \<Rightarrow> nat) \<Rightarrow> sys" where
  "power_on g =
     \<lparr>gpio = g, uart_event_queue = None, command_queue = None, heap = Map.empty, data = [],
      uart_task = NotCreated, command_task = NotCreated, trace = []\<rparr>"

definition app_main :: "boot_env \<Rightarrow> sys \<Rightarrow> boot_result" where
  "app_main env s0 =
     (let s = esp_log LOGI ''Starting UART Echo Example'' [] s0 in
      if \<not> gpio_config_ok env then Aborted s
      else
        let s = gpio_set_level GPIO_CONTROL 0 s in
        if \<not> uart_param_config_ok env then Aborted s
        else if \<not> uart_set_pin_ok env then Aborted s
        else if \<not> uart_driver_install_ok env then Aborted s
        else
          let s = s\<lparr>uart_event_queue := Some (xQueueCreate UART_QUEUE_SIZE)\<rparr> in
          if \<not> queue_create_ok env then
            Returned (esp_log LOGE ''Failed to create command queue'' [] s)
          else
            let s = s\<lparr>command_queue := Some (xQueueCreate 5)\<rparr>;
                s = (if uart_task_create_ok env then s\<lparr>uart_task := Created\<rparr> else s);
                s = (if command_task_create_ok env then s\<lparr>command_task := Created\<rparr> else s)
            in Returned (esp_log LOGI ''UART Echo server started'' [] s))"

subsection \<open>The running system\<close>

text \<open>
  A step of the system: the driver posts an event (dropped when the event queue is
  full), a created task runs its prologue, or a task in its loop makes one turn. A task
  runs only when \<^verbatim>\<open>xTaskCreate\<close> made it. The allocator never hands out a live block.
  A turn is one step: the two tasks share only the command queue and the heap blocks
  handed over through it, so the steps of the other task that fall inside a turn are taken
  before it or after it. The send's timeout is not timed: the send fails exactly when the
  queue is full at the send.
\<close>

inductive step :: "sys \<Rightarrow> sys \<Rightarrow> bool" where
  post_event:
    "uart_event_queue s = Some q \<Longrightarrow>
     step s (s\<lparr>uart_event_queue := Some (snd (xQueueSend q event))\<rparr>)"
| uart_start:
    "uart_task s = Created \<Longrightarrow> step s (uart_event_task_start m s)"
| uart_turn:
    "uart_task s = InLoop \<Longrightarrow> (\<forall>p. dup env = Some p \<longrightarrow> heap s p = None) \<Longrightarrow>
     uart_event_task_iteration env s = Some s' \<Longrightarrow> step s s'"
| command_start:
    "command_task s = Created \<Longrightarrow> step s (command_processor_task_start s)"
| command_turn:
    "command_task s = InLoop \<Longrightarrow> command_processor_iteration s = Some s' \<Longrightarrow> step s s'"

text \<open>The states the system can be in after \<^verbatim>\<open>app_main\<close> has returned.\<close>

inductive reachable :: "boot_env \<Rightarrow> (nat \<Rightarrow> nat) \<Rightarrow> sys \<Rightarrow> bool" where
  at_start: "app_main env (power_on g) = Returned s \<Longrightarrow> reachable env g s"
| after_step: "reachable env g s \<Longrightarrow> step s s' \<Longrightarrow> reachable env g s'"

text \<open>
  A well-formed system: the UART task in its loop has its \<open>BUF_SIZE\<close> bytes; a task exists
  only with both queues created; and the pointers in the command queue are distinct, each
  to a live block that holds a NUL.
\<close>

definition wf_sys :: "sys \<Rightarrow> bool" where
  "wf_sys s =
     ((uart_task s = InLoop \<longrightarrow> length (data s) = BUF_SIZE) \<and>
      (uart_task s \<noteq> NotCreated \<or> command_task s \<noteq> NotCreated \<longrightarrow>
         uart_event_queue s \<noteq> None \<and> command_queue s \<noteq> None) \<and>
      (\<forall>q. command_queue s = Some q \<longrightarrow>
         distinct (q_items q) \<and>
         (\<forall>p \<in> set (q_items q). \<exists>buf. heap s p = Some buf \<and> NUL \<in> set buf)))"

subsection \<open>A concrete running system\<close>

text \<open>A system with both tasks in their loops, all pins low, an empty event queue, the
  given heap blocks and the given pointers in the command queue; used to evaluate the
  model on concrete inputs.\<close>

definition running_sys :: "(nat \<rightharpoonup> string) \<Rightarrow> nat list \<Rightarrow> sys" where
  "running_sys h items =
     \<lparr>gpio = (\<lambda>pin. 0), uart_event_queue = Some (xQueueCreate UART_QUEUE_SIZE),
      command_queue = Some \<lparr>q_capacity = 5, q_items = items\<rparr>, heap = h,
      data = replicate BUF_SIZE (CHR ''x''), uart_task = InLoop, command_task = InLoop, trace = []\<rparr>"

text \<open>A startup in which every call succeeds.\<close>

definition all_ok :: boot_env where
  "all_ok = \<lparr>gpio_config_ok = True, uart_param_config_ok = True, uart_set_pin_ok = True,
     uart_driver_install_ok = True, queue_create_ok = True, uart_task_create_ok = True,
     command_task_create_ok = True\<rparr>"

section \<open>Properties\<close>

subsection \<open>C strings\<close>

lemma strlen_Some:
  "strlen buf = Some n \<Longrightarrow>
   n < length buf \<and> buf ! n = NUL \<and> c_str buf = take n buf \<and> NUL \<notin> set (take n buf)"
  by (induction buf arbitrary: n) (auto simp: c_str_def split: if_splits)

lemma strlen_NUL: "NUL \<in> set buf \<Longrightarrow> strlen buf = Some (length (c_str buf))"
  by (induction buf) (auto simp: c_str_def)

lemma strlen_None: "NUL \<notin> set buf \<Longrightarrow> strlen buf = None"
  by (induction buf) (auto simp: c_str_def)

lemma c_str_append_NUL: "NUL \<notin> set a \<Longrightarrow> c_str (a @ NUL # r) = a"
  by (induction a) (auto simp: c_str_def)

lemma strcmp_lit:
  "NUL \<notin> set t \<Longrightarrow> NUL \<in> set a \<Longrightarrow>
   \<exists>r. strcmp a (lit t) = Some r \<and> (r = 0 \<longleftrightarrow> c_str a = t)"
proof (induction t arbitrary: a)
  case Nil
  then obtain x xs where "a = x # xs" by (cases a) auto
  then show ?case by (auto simp: lit_def c_str_def)
next
  case (Cons b t)
  then obtain x xs where a: "a = x # xs" by (cases a) auto
  show ?case
  proof (cases "x = b")
    case True
    with Cons.prems a have "NUL \<in> set xs" "NUL \<notin> set t" "b \<noteq> NUL" by auto
    with Cons.IH[of xs] True a show ?thesis by (auto simp: lit_def c_str_def)
  next
    case False
    then show ?thesis using a by (auto simp: lit_def c_str_def)
  qed
qed

lemma NUL_notin_ON: "NUL \<notin> set ''ON''" "NUL \<notin> set ''OFF''"
  by (simp_all add: NUL_def)

subsection \<open>The trimmed text\<close>

lemma trimmed_text_snoc:
  "trimmed_text (t @ [c]) = (if is_eol c then trimmed_text t else t @ [c])"
  by (simp add: trimmed_text_def)

lemma length_trimmed_text: "length (trimmed_text t) \<le> length t"
  by (simp add: trimmed_text_def length_dropWhile_le[of is_eol "rev t", simplified])

lemma set_trimmed_text: "set (trimmed_text t) \<subseteq> set t"
  using set_dropWhileD[of _ is_eol "rev t"] by (auto simp: trimmed_text_def)

lemma trimmed_text_split:
  "t = trimmed_text t @ rev (takeWhile is_eol (rev t))"
proof -
  have "rev (dropWhile is_eol (rev t)) @ rev (takeWhile is_eol (rev t)) =
        rev (takeWhile is_eol (rev t) @ dropWhile is_eol (rev t))"
    by (simp only: rev_append)
  also have "\<dots> = t"
    by (simp only: takeWhile_dropWhile_id rev_rev_ident)
  finally show ?thesis by (simp only: trimmed_text_def)
qed

lemma trimmed_text_last:
  "trimmed_text t = [] \<or> last (trimmed_text t) \<notin> {LF, CR}"
proof (cases "dropWhile is_eol (rev t) = []")
  case True
  then show ?thesis by (simp add: trimmed_text_def)
next
  case False
  then have "\<not> is_eol (hd (dropWhile is_eol (rev t)))" by (rule hd_dropWhile)
  then show ?thesis using False by (simp add: trimmed_text_def last_rev is_eol_def)
qed

subsection \<open>The trim loop\<close>

text \<open>Started at offset \<open>m - 1\<close> inside the buffer, the loop returns, and its result is the
  trimmed text of the first \<open>m\<close> bytes, NUL in place of each byte it removed, and the
  rest of the buffer as it was.\<close>

lemma trim_loop_eq:
  "m \<le> length cmd \<Longrightarrow>
   trim_loop cmd (int m - 1) =
     Some (trimmed_text (take m cmd) @
           replicate (m - length (trimmed_text (take m cmd))) NUL @ drop m cmd)"
proof (induction m arbitrary: cmd)
  case 0
  then show ?case by (simp add: trimmed_text_def)
next
  case (Suc j)
  then have j: "j < length cmd" by simp
  have ld: "load cmd (int j) = Some (cmd ! j)" using j by (simp add: load_def)
  have tk: "take (Suc j) cmd = take j cmd @ [cmd ! j]" using j by (simp add: take_Suc_conv_app_nth)
  show ?case
  proof (cases "is_eol (cmd ! j)")
    case True
    let ?cmd' = "cmd[j := NUL]"
    have st: "store cmd (int j) NUL = Some ?cmd'" using j by (simp add: store_def)
    have ih: "trim_loop ?cmd' (int j - 1) =
       Some (trimmed_text (take j ?cmd') @
             replicate (j - length (trimmed_text (take j ?cmd'))) NUL @ drop j ?cmd')"
      using Suc.IH[of ?cmd'] j by simp
    have dr: "drop j ?cmd' = NUL # drop (Suc j) cmd" using j
      by (simp add: drop_update_swap Cons_nth_drop_Suc[symmetric] del: drop_Suc)
    have le: "length (trimmed_text (take j cmd)) \<le> j"
      using length_trimmed_text[of "take j cmd"] j by simp
    have rp: "replicate (Suc j - length (trimmed_text (take j cmd))) NUL
        = replicate (j - length (trimmed_text (take j cmd))) NUL @ [NUL]"
      using le by (simp add: Suc_diff_le replicate_append_same)
    show ?thesis
      using True ld st ih dr rp
      by (subst trim_loop.simps) (simp add: tk trimmed_text_snoc is_eol_def)
  next
    case False
    then show ?thesis
      using ld j
      by (subst trim_loop.simps) (simp add: tk trimmed_text_snoc is_eol_def Cons_nth_drop_Suc)
  qed
qed

lemma trim_eq:
  assumes "strlen buf = Some n"
  shows "trim buf = Some (trimmed_text (c_str buf) @
           replicate (n - length (trimmed_text (c_str buf))) NUL @ drop n buf)"
  using assms strlen_Some[OF assms] trim_loop_eq[of n buf] by (simp add: trim_def)

lemma trim_c_str:
  assumes "NUL \<in> set buf"
  shows "\<exists>buf'. trim buf = Some buf' \<and> c_str buf' = trimmed_text (c_str buf) \<and>
           length buf' = length buf \<and> NUL \<in> set buf'"
proof -
  let ?n = "length (c_str buf)"
  let ?t = "trimmed_text (c_str buf)"
  have sl: "strlen buf = Some ?n" using assms by (rule strlen_NUL)
  note f = strlen_Some[OF sl]
  have dr: "drop ?n buf = NUL # drop (Suc ?n) buf" using f by (metis Cons_nth_drop_Suc)
  have nn: "NUL \<notin> set ?t" using set_trimmed_text[of "c_str buf"] f by auto
  have le: "length ?t \<le> ?n" by (rule length_trimmed_text)
  let ?r = "?t @ replicate (?n - length ?t) NUL @ drop ?n buf"
  have t: "trim buf = Some ?r" by (rule trim_eq[OF sl])
  have "?r = ?t @ NUL # (replicate (?n - length ?t) NUL @ drop (Suc ?n) buf)"
    by (simp add: dr replicate_app_Cons_same)
  then have c: "c_str ?r = ?t" using c_str_append_NUL[OF nn] by simp
  have l: "length ?r = length buf" using le f by simp
  have m: "NUL \<in> set ?r" by (simp add: dr)
  show ?thesis using t c l m by blast
qed

text \<open>
  Claim C3. For every null-terminated command entry the trim returns, and removes exactly
  the maximal trailing run of \<^verbatim>\<open>\n\<close> and \<^verbatim>\<open>\r\<close>: the text before is the text after
  followed by a run of such characters, the text after is empty or ends in another
  character, and in the buffer the characters kept are where they were, each removed one
  is NUL, and everything from the old terminator on is untouched.
\<close>

theorem trim_removes_trailing_eol:
  assumes "NUL \<in> set buf"
  shows "\<exists>buf' run. trim buf = Some buf' \<and>
           c_str buf = c_str buf' @ run \<and> set run \<subseteq> {LF, CR} \<and>
           (c_str buf' = [] \<or> last (c_str buf') \<notin> {LF, CR}) \<and>
           buf' = c_str buf' @ replicate (length run) NUL @ drop (length (c_str buf)) buf"
proof -
  let ?t = "trimmed_text (c_str buf)"
  let ?run = "rev (takeWhile is_eol (rev (c_str buf)))"
  obtain buf' where t: "trim buf = Some buf'" and c: "c_str buf' = ?t"
    using trim_c_str[OF assms] by blast
  have sp: "c_str buf = ?t @ ?run" by (rule trimmed_text_split)
  have "\<forall>x \<in> set (takeWhile is_eol (rev (c_str buf))). is_eol x"
    by (auto dest: set_takeWhileD)
  then have rn: "set ?run \<subseteq> {LF, CR}" by (auto simp: is_eol_def)
  have ln: "length (c_str buf) - length ?t = length ?run"
    using arg_cong[OF sp, of length] by simp
  have eq: "buf' = ?t @ replicate (length ?run) NUL @ drop (length (c_str buf)) buf"
    using t trim_eq[OF strlen_NUL[OF assms]] ln by simp
  show ?thesis
    using t c sp rn eq trimmed_text_last[of "c_str buf"] by (intro exI[of _ buf'] exI[of _ ?run]) simp
qed

theorem trim_removes_trailing_eol_witness:
  "NUL \<in> set (''O'' @ [LF] @ ''N'' @ [CR, LF, NUL] @ ''xy'') \<and>
   trim (''O'' @ [LF] @ ''N'' @ [CR, LF, NUL] @ ''xy'') =
     Some (''O'' @ [LF] @ ''N'' @ [NUL, NUL, NUL] @ ''xy'') \<and>
   (\<exists>buf' run. trim (''O'' @ [LF] @ ''N'' @ [CR, LF, NUL] @ ''xy'') = Some buf' \<and>
      c_str (''O'' @ [LF] @ ''N'' @ [CR, LF, NUL] @ ''xy'') = c_str buf' @ run \<and>
      set run \<subseteq> {LF, CR} \<and>
      (c_str buf' = [] \<or> last (c_str buf') \<notin> {LF, CR}) \<and>
      buf' = c_str buf' @ replicate (length run) NUL @
        drop (length (c_str (''O'' @ [LF] @ ''N'' @ [CR, LF, NUL] @ ''xy'')))
          (''O'' @ [LF] @ ''N'' @ [CR, LF, NUL] @ ''xy''))"
proof -
  have h: "NUL \<in> set (''O'' @ [LF] @ ''N'' @ [CR, LF, NUL] @ ''xy'')" by simp
  have v: "trim (''O'' @ [LF] @ ''N'' @ [CR, LF, NUL] @ ''xy'') =
     Some (''O'' @ [LF] @ ''N'' @ [NUL, NUL, NUL] @ ''xy'')" by code_simp
  show ?thesis using h v trim_removes_trailing_eol[OF h] by blast
qed

subsection \<open>The command stage\<close>

lemma process_command_eq:
  assumes h: "heap s cmd = Some buf" and z: "NUL \<in> set buf"
  shows "process_command cmd s = Some (s
    \<lparr>gpio := (if trimmed_text (c_str buf) = ''ON'' then (gpio s)(GPIO_CONTROL := 1)
              else if trimmed_text (c_str buf) = ''OFF'' then (gpio s)(GPIO_CONTROL := 0)
              else gpio s),
      heap := (heap s)(cmd := None),
      trace := trace s @ Log LOGI ''Processing command: %s'' [ArgStr (trimmed_text (c_str buf))] #
        (if trimmed_text (c_str buf) = ''ON'' then
           [GpioSetLevel GPIO_CONTROL 1, Log LOGI ''GPIO turned ON'' []]
         else if trimmed_text (c_str buf) = ''OFF'' then
           [GpioSetLevel GPIO_CONTROL 0, Log LOGI ''GPIO turned OFF'' []]
         else [Log LOGI ''Unknown command: %s'' [ArgStr (trimmed_text (c_str buf))]]) @
        [Free cmd]\<rparr>)"
proof -
  obtain buf' where t: "trim buf = Some buf'" and c: "c_str buf' = trimmed_text (c_str buf)"
    and n: "NUL \<in> set buf'"
    using trim_c_str[OF z] by blast
  obtain r1 where r1: "strcmp buf' (lit ''ON'') = Some r1" "r1 = 0 \<longleftrightarrow> c_str buf' = ''ON''"
    using strcmp_lit[OF NUL_notin_ON(1) n] by blast
  obtain r2 where r2: "strcmp buf' (lit ''OFF'') = Some r2" "r2 = 0 \<longleftrightarrow> c_str buf' = ''OFF''"
    using strcmp_lit[OF NUL_notin_ON(2) n] by blast
  show ?thesis
    using h t c r1 r2
    by (simp add: process_command_def free_def esp_log_def gpio_set_level_def emit_def)
qed

lemma command_processor_iteration_eq:
  assumes q: "command_queue s = Some q" and i: "q_items q = cmd # rest"
    and h: "heap s cmd = Some buf" and z: "NUL \<in> set buf"
  shows "command_processor_iteration s = Some (s
    \<lparr>gpio := (if trimmed_text (c_str buf) = ''ON'' then (gpio s)(GPIO_CONTROL := 1)
              else if trimmed_text (c_str buf) = ''OFF'' then (gpio s)(GPIO_CONTROL := 0)
              else gpio s),
      command_queue := Some (q\<lparr>q_items := rest\<rparr>),
      heap := (heap s)(cmd := None),
      trace := trace s @ Log LOGI ''Processing command: %s'' [ArgStr (trimmed_text (c_str buf))] #
        (if trimmed_text (c_str buf) = ''ON'' then
           [GpioSetLevel GPIO_CONTROL 1, Log LOGI ''GPIO turned ON'' []]
         else if trimmed_text (c_str buf) = ''OFF'' then
           [GpioSetLevel GPIO_CONTROL 0, Log LOGI ''GPIO turned OFF'' []]
         else [Log LOGI ''Unknown command: %s'' [ArgStr (trimmed_text (c_str buf))]]) @
        [Free cmd]\<rparr>)"
proof -
  have "heap (s\<lparr>command_queue := Some (q\<lparr>q_items := rest\<rparr>)\<rparr>) cmd = Some buf"
    using h by simp
  from process_command_eq[OF this z] show ?thesis
    using q i by (simp add: command_processor_iteration_def xQueueReceive_def)
qed

text \<open>
  Claim C1. When the command stage takes an entry from its queue, it finishes the turn,
  and the output pins afterwards are: pin \<open>GPIO_CONTROL\<close> at 1 if the trimmed text is
  \<^verbatim>\<open>ON\<close>, else at 0 if it is \<^verbatim>\<open>OFF\<close>, and no pin changed for any other text.
\<close>

theorem command_sets_output_state:
  assumes "command_queue s = Some q" and "q_items q = cmd # rest"
    and "heap s cmd = Some buf" and "NUL \<in> set buf"
  shows "\<exists>s'. command_processor_iteration s = Some s' \<and>
           gpio s' = (if trimmed_text (c_str buf) = ''ON'' then (gpio s)(GPIO_CONTROL := 1)
                      else if trimmed_text (c_str buf) = ''OFF'' then (gpio s)(GPIO_CONTROL := 0)
                      else gpio s)"
  using command_processor_iteration_eq[OF assms] by simp

theorem command_sets_output_state_witness:
  "(\<exists>s'. command_processor_iteration (running_sys [7 \<mapsto> ''ON'' @ [CR, LF, NUL]] [7]) = Some s' \<and>
      gpio s' = (\<lambda>pin. 0)(GPIO_CONTROL := 1)) \<and>
   (\<exists>s'. command_processor_iteration
        ((running_sys [7 \<mapsto> ''OFF'' @ [LF, NUL]] [7])\<lparr>gpio := (\<lambda>pin. 1)\<rparr>) = Some s' \<and>
      gpio s' = (\<lambda>pin. 1)(GPIO_CONTROL := 0)) \<and>
   (\<exists>s'. command_processor_iteration
        ((running_sys [7 \<mapsto> ''on'' @ [LF, NUL]] [7])\<lparr>gpio := (\<lambda>pin. 1)\<rparr>) = Some s' \<and>
      gpio s' = (\<lambda>pin. 1))"
proof -
  have 1: "\<exists>s'. command_processor_iteration (running_sys [7 \<mapsto> ''ON'' @ [CR, LF, NUL]] [7]) = Some s' \<and>
      gpio s' = (\<lambda>pin. 0)(GPIO_CONTROL := 1)"
    using command_sets_output_state[of "running_sys [7 \<mapsto> ''ON'' @ [CR, LF, NUL]] [7]"
        "\<lparr>q_capacity = 5, q_items = [7]\<rparr>" 7 "[]" "''ON'' @ [CR, LF, NUL]"]
    by (simp add: running_sys_def trimmed_text_def c_str_def is_eol_def NUL_def LF_def CR_def)
  have 2: "\<exists>s'. command_processor_iteration
        ((running_sys [7 \<mapsto> ''OFF'' @ [LF, NUL]] [7])\<lparr>gpio := (\<lambda>pin. 1)\<rparr>) = Some s' \<and>
      gpio s' = (\<lambda>pin. 1)(GPIO_CONTROL := 0)"
    using command_sets_output_state[of "(running_sys [7 \<mapsto> ''OFF'' @ [LF, NUL]] [7])\<lparr>gpio := (\<lambda>pin. 1)\<rparr>"
        "\<lparr>q_capacity = 5, q_items = [7]\<rparr>" 7 "[]" "''OFF'' @ [LF, NUL]"]
    by (simp add: running_sys_def trimmed_text_def c_str_def is_eol_def NUL_def LF_def CR_def)
  have 3: "\<exists>s'. command_processor_iteration
        ((running_sys [7 \<mapsto> ''on'' @ [LF, NUL]] [7])\<lparr>gpio := (\<lambda>pin. 1)\<rparr>) = Some s' \<and>
      gpio s' = (\<lambda>pin. 1)"
    using command_sets_output_state[of "(running_sys [7 \<mapsto> ''on'' @ [LF, NUL]] [7])\<lparr>gpio := (\<lambda>pin. 1)\<rparr>"
        "\<lparr>q_capacity = 5, q_items = [7]\<rparr>" 7 "[]" "''on'' @ [LF, NUL]"]
    by (simp add: running_sys_def trimmed_text_def c_str_def is_eol_def NUL_def LF_def CR_def)
  show ?thesis using 1 2 3 by blast
qed

text \<open>
  Claim C6. Two entries in a row with the same trimmed text \<^verbatim>\<open>ON\<close> (or \<^verbatim>\<open>OFF\<close>): after
  the first the pin is at 1 (at 0), and the second leaves every pin as the first left it.
\<close>

theorem on_off_idempotent:
  assumes q: "command_queue s = Some q" and i: "q_items q = c1 # c2 # rest"
    and h1: "heap s c1 = Some b1" and h2: "heap s c2 = Some b2" and ne: "c1 \<noteq> c2"
    and z1: "NUL \<in> set b1" and z2: "NUL \<in> set b2"
    and t1: "trimmed_text (c_str b1) = t" and t2: "trimmed_text (c_str b2) = t"
    and t: "t = ''ON'' \<or> t = ''OFF''"
  shows "\<exists>s1 s2. command_processor_iteration s = Some s1 \<and>
           command_processor_iteration s1 = Some s2 \<and>
           gpio s1 GPIO_CONTROL = (if t = ''ON'' then 1 else 0) \<and>
           gpio s2 = gpio s1"
proof -
  obtain s1 where s1: "command_processor_iteration s = Some s1"
    and s1eq: "s1 = s\<lparr>gpio := (if trimmed_text (c_str b1) = ''ON'' then (gpio s)(GPIO_CONTROL := 1)
              else if trimmed_text (c_str b1) = ''OFF'' then (gpio s)(GPIO_CONTROL := 0)
              else gpio s),
      command_queue := Some (q\<lparr>q_items := c2 # rest\<rparr>),
      heap := (heap s)(c1 := None),
      trace := trace s @ Log LOGI ''Processing command: %s'' [ArgStr (trimmed_text (c_str b1))] #
        (if trimmed_text (c_str b1) = ''ON'' then
           [GpioSetLevel GPIO_CONTROL 1, Log LOGI ''GPIO turned ON'' []]
         else if trimmed_text (c_str b1) = ''OFF'' then
           [GpioSetLevel GPIO_CONTROL 0, Log LOGI ''GPIO turned OFF'' []]
         else [Log LOGI ''Unknown command: %s'' [ArgStr (trimmed_text (c_str b1))]]) @
        [Free c1]\<rparr>"
    using command_processor_iteration_eq[OF q i h1 z1] by simp
  have q1: "command_queue s1 = Some (q\<lparr>q_items := c2 # rest\<rparr>)" by (simp add: s1eq)
  have i1: "q_items (q\<lparr>q_items := c2 # rest\<rparr>) = c2 # rest" by simp
  have h21: "heap s1 c2 = Some b2" using h2 ne by (simp add: s1eq)
  have g1: "gpio s1 = (gpio s)(GPIO_CONTROL := (if t = ''ON'' then 1 else 0))"
    using t t1 by (auto simp: s1eq)
  obtain s2 where s2: "command_processor_iteration s1 = Some s2"
    and g2: "gpio s2 = (if t = ''ON'' then (gpio s1)(GPIO_CONTROL := 1)
                      else if t = ''OFF'' then (gpio s1)(GPIO_CONTROL := 0)
                      else gpio s1)"
    using command_processor_iteration_eq[OF q1 i1 h21 z2] t2 by simp
  have "gpio s2 = gpio s1" using g1 g2 t by auto
  then show ?thesis using s1 s2 g1 by simp
qed

theorem on_off_idempotent_witness:
  "(\<exists>s1 s2.
     command_processor_iteration
       (running_sys [7 \<mapsto> ''ON'' @ [LF, NUL], 8 \<mapsto> ''ON'' @ [NUL]] [7, 8]) = Some s1 \<and>
     command_processor_iteration s1 = Some s2 \<and>
     gpio s1 GPIO_CONTROL = 1 \<and> gpio s2 = gpio s1) \<and>
   (\<exists>s1 s2.
     command_processor_iteration
       ((running_sys [7 \<mapsto> ''OFF'' @ [CR, LF, NUL], 8 \<mapsto> ''OFF'' @ [LF, NUL]] [7, 8])
          \<lparr>gpio := (\<lambda>pin. 1)\<rparr>) = Some s1 \<and>
     command_processor_iteration s1 = Some s2 \<and>
     gpio s1 GPIO_CONTROL = 0 \<and> gpio s2 = gpio s1)"
proof -
  have 1: "\<exists>s1 s2.
     command_processor_iteration
       (running_sys [7 \<mapsto> ''ON'' @ [LF, NUL], 8 \<mapsto> ''ON'' @ [NUL]] [7, 8]) = Some s1 \<and>
     command_processor_iteration s1 = Some s2 \<and>
     gpio s1 GPIO_CONTROL = 1 \<and> gpio s2 = gpio s1"
    using on_off_idempotent[of "running_sys [7 \<mapsto> ''ON'' @ [LF, NUL], 8 \<mapsto> ''ON'' @ [NUL]] [7, 8]"
        "\<lparr>q_capacity = 5, q_items = [7, 8]\<rparr>" 7 8 "[]" "''ON'' @ [LF, NUL]" "''ON'' @ [NUL]" "''ON''"]
    by (simp add: running_sys_def trimmed_text_def c_str_def is_eol_def NUL_def LF_def CR_def)
  have 2: "\<exists>s1 s2.
     command_processor_iteration
       ((running_sys [7 \<mapsto> ''OFF'' @ [CR, LF, NUL], 8 \<mapsto> ''OFF'' @ [LF, NUL]] [7, 8])
          \<lparr>gpio := (\<lambda>pin. 1)\<rparr>) = Some s1 \<and>
     command_processor_iteration s1 = Some s2 \<and>
     gpio s1 GPIO_CONTROL = 0 \<and> gpio s2 = gpio s1"
    using on_off_idempotent[of "(running_sys [7 \<mapsto> ''OFF'' @ [CR, LF, NUL], 8 \<mapsto> ''OFF'' @ [LF, NUL]] [7, 8])\<lparr>gpio := (\<lambda>pin. 1)\<rparr>"
        "\<lparr>q_capacity = 5, q_items = [7, 8]\<rparr>" 7 8 "[]" "''OFF'' @ [CR, LF, NUL]" "''OFF'' @ [LF, NUL]" "''OFF''"]
    by (simp add: running_sys_def trimmed_text_def c_str_def is_eol_def NUL_def LF_def CR_def)
  show ?thesis using 1 2 by blast
qed

subsection \<open>The receive/echo stage\<close>

lemma store_after_read:
  "length bs < length dat \<Longrightarrow>
   store (bs @ drop (length bs) dat) (int (length bs)) v = Some (bs @ v # drop (Suc (length bs)) dat)"
  by (simp add: store_def list_update_append Cons_nth_drop_Suc[symmetric] del: drop_Suc)

lemma strlen_append_NUL: "strlen (bs @ NUL # r) = Some (length (c_str bs))"
  by (induction bs) (auto simp: c_str_def)

lemma take_append_NUL: "take (Suc (length (c_str bs))) (bs @ NUL # r) = c_str bs @ [NUL]"
  by (induction bs) (auto simp: c_str_def)

lemma c_str_append_NUL_any: "c_str (bs @ NUL # r) = c_str bs"
  by (induction bs) (auto simp: c_str_def)

lemma take_length_append: "take (length bs) (bs @ r) = bs"
  by simp

lemma clamp_min: "(if n \<ge> BUF_SIZE then BUF_SIZE - 1 else n) = min n (BUF_SIZE - 1)"
  by (simp add: BUF_SIZE_def)

lemma on_uart_data_eq:
  assumes sz: "ev_size event \<noteq> 0" and rx: "rx env = RxBytes pending"
    and bs: "bs = take (min (ev_size event) (BUF_SIZE - 1)) pending" and ne: "bs \<noteq> []"
    and len: "length (data s) = BUF_SIZE"
  shows "on_uart_data env event s =
    (let s3 = s\<lparr>data := bs @ NUL # drop (Suc (length bs)) (data s),
                 trace := trace s @ [UartRead (min (ev_size event) (BUF_SIZE - 1)),
                   Log LOGI ''Received: %s'' [ArgStr (c_str bs)], UartWrite bs, Strdup (dup env)]\<rparr>
     in case dup env of
          None \<Rightarrow> Some (s3\<lparr>trace := trace s3 @ [Log LOGE ''Failed to duplicate command string'' []]\<rparr>)
        | Some p \<Rightarrow>
           (case command_queue s of
              None \<Rightarrow> None
            | Some q \<Rightarrow>
                if length (q_items q) < q_capacity q then
                  Some (s3\<lparr>heap := (heap s)(p \<mapsto> c_str bs @ [NUL]),
                           command_queue := Some (q\<lparr>q_items := q_items q @ [p]\<rparr>),
                           trace := trace s3 @ [QueueSend p True]\<rparr>)
                else
                  Some (s3\<lparr>heap := (heap s)(p := None), command_queue := Some q,
                           trace := trace s3 @ [QueueSend p False, Free p,
                             Log LOGE ''Failed to send command to queue'' []]\<rparr>)))"
proof -
  have lb: "length bs < length (data s)" using bs len by (simp add: BUF_SIZE_def)
  have lb': "length bs \<le> length (data s)" using lb by simp
  have pos: "0 < length bs" using ne by simp
  have rd: "uart_read_bytes (rx env) (min (ev_size event) (BUF_SIZE - 1)) s =
    Some (int (length bs), emit (UartRead (min (ev_size event) (BUF_SIZE - 1)))
            (s\<lparr>data := bs @ drop (length bs) (data s)\<rparr>))"
    using rx lb' bs by (simp add: uart_read_bytes_def Let_def)
  have lb2: "length bs \<le> Suc (length (data s) - Suc 0)" using lb by simp
  show ?thesis
    using sz pos lb lb2
    unfolding on_uart_data_def clamp_min Let_def rd
    by (simp add: store_after_read[OF lb] uart_write_bytes_def strdup_def strlen_append_NUL
        take_append_NUL c_str_append_NUL_any esp_log_def emit_def xQueueSend_def free_def
        take_length_append split: option.split del: take_append)
qed


lemma on_uart_data_size0: "ev_size event = 0 \<Longrightarrow> on_uart_data env event s = Some s"
  by (simp add: on_uart_data_def)

lemma on_uart_data_nothing_read:
  assumes sz: "ev_size event \<noteq> 0"
    and rd: "rx env = RxError \<or> (\<exists>pending. rx env = RxBytes pending \<and>
               take (min (ev_size event) (BUF_SIZE - 1)) pending = [])"
  shows "on_uart_data env event s =
           Some (s\<lparr>trace := trace s @ [UartRead (min (ev_size event) (BUF_SIZE - 1))]\<rparr>)"
  using sz rd unfolding on_uart_data_def clamp_min Let_def
  by (auto simp: uart_read_bytes_def emit_def)

lemma on_uart_data_frame:
  assumes "on_uart_data env event s = Some s'"
  shows "gpio s' = gpio s \<and> uart_task s' = uart_task s \<and> command_task s' = command_task s \<and>
         uart_event_queue s' = uart_event_queue s \<and>
         (command_queue s' = command_queue s \<or>
          (\<exists>q p. command_queue s = Some q \<and> length (q_items q) < q_capacity q \<and>
                 command_queue s' = Some (q\<lparr>q_items := q_items q @ [p]\<rparr>)))"
  using assms unfolding on_uart_data_def Let_def
  by (auto simp: uart_read_bytes_def uart_write_bytes_def strdup_def esp_log_def emit_def
        xQueueSend_def free_def Let_def
      split: if_splits option.splits rx_result.splits prod.splits Option.bind_splits)

lemma handle_uart_data: "ev_type event = UART_DATA \<Longrightarrow> handle_uart_event env event s = on_uart_data env event s"
  by (simp add: handle_uart_event_def)

lemma on_uart_data_total:
  assumes len: "length (data s) = BUF_SIZE" and q: "command_queue s = Some q"
  shows "\<exists>s'. on_uart_data env event s = Some s' \<and> length (data s') = BUF_SIZE"
proof (cases "ev_size event = 0")
  case True
  then show ?thesis using len by (simp add: on_uart_data_size0)
next
  case sz: False
  let ?n = "min (ev_size event) (BUF_SIZE - 1)"
  show ?thesis
  proof (cases "rx env")
    case RxError
    then show ?thesis using on_uart_data_nothing_read[OF sz, of env s] len by simp
  next
    case (RxBytes pending)
    show ?thesis
    proof (cases "take ?n pending = []")
      case True
      then show ?thesis using on_uart_data_nothing_read[OF sz, of env s] RxBytes len by simp
    next
      case False
      have l: "length (take ?n pending) < BUF_SIZE" by (simp add: BUF_SIZE_def)
      show ?thesis
        using on_uart_data_eq[OF sz RxBytes refl False len] q len l
        by (auto simp: Let_def split: option.split)
    qed
  qed
qed

lemma running_sys_sel:
  "gpio (running_sys h items) = (\<lambda>pin. 0)"
  "uart_event_queue (running_sys h items) = Some (xQueueCreate UART_QUEUE_SIZE)"
  "command_queue (running_sys h items) = Some \<lparr>q_capacity = 5, q_items = items\<rparr>"
  "heap (running_sys h items) = h"
  "length (data (running_sys h items)) = BUF_SIZE"
  "uart_task (running_sys h items) = InLoop"
  "command_task (running_sys h items) = InLoop"
  "trace (running_sys h items) = []"
  by (simp_all add: running_sys_def)

text \<open>
  Claim C2. A \<^verbatim>\<open>UART_DATA\<close> event for an input shorter than \<open>BUF_SIZE - 1\<close> that the
  driver has pending: the handler returns, and the calls it makes are, in this order, the
  read, the log line, the write of exactly the input to the serial output, the \<^verbatim>\<open>strdup\<close>,
  and only then the send to the command queue (when the copy was allocated). For the empty
  input there is no write and no send.
\<close>

theorem echo_before_enqueue:
  assumes ty: "ev_type event = UART_DATA"
    and rx: "rx env = RxBytes input"
    and sz: "length input \<le> ev_size event"
    and lt: "length input < BUF_SIZE - 1"
    and len: "length (data s) = BUF_SIZE"
    and q: "command_queue s = Some q"
  shows "\<exists>s'. handle_uart_event env event s = Some s' \<and>
     trace s' = trace s @
       (if ev_size event = 0 then []
        else if input = [] then [UartRead (min (ev_size event) (BUF_SIZE - 1))]
        else
          [UartRead (min (ev_size event) (BUF_SIZE - 1)),
           Log LOGI ''Received: %s'' [ArgStr (c_str input)],
           UartWrite input,
           Strdup (dup env)] @
          (case dup env of
             None \<Rightarrow> [Log LOGE ''Failed to duplicate command string'' []]
           | Some p \<Rightarrow>
               if length (q_items q) < q_capacity q then [QueueSend p True]
               else [QueueSend p False, Free p, Log LOGE ''Failed to send command to queue'' []]))"
proof (cases "ev_size event = 0")
  case True
  then show ?thesis by (simp add: handle_uart_data[OF ty] on_uart_data_size0)
next
  case z: False
  show ?thesis
  proof (cases "input = []")
    case True
    then have "take (min (ev_size event) (BUF_SIZE - 1)) input = []" by simp
    then show ?thesis
      using on_uart_data_nothing_read[OF z, of env s] rx z True
      by (simp add: handle_uart_data[OF ty])
  next
    case ne: False
    have bs: "input = take (min (ev_size event) (BUF_SIZE - 1)) input"
      using sz lt by simp
    show ?thesis
      using on_uart_data_eq[OF z rx bs ne len] q z ne
      by (auto simp: handle_uart_data[OF ty] Let_def split: option.split)
  qed
qed

theorem echo_before_enqueue_witness:
  "\<exists>s'. handle_uart_event \<lparr>rx = RxBytes (''ON'' @ [LF]), dup = Some 7\<rparr>
           \<lparr>ev_type = UART_DATA, ev_size = 3\<rparr> (running_sys Map.empty []) = Some s' \<and>
         trace s' = [UartRead 3, Log LOGI ''Received: %s'' [ArgStr (''ON'' @ [LF])],
                     UartWrite (''ON'' @ [LF]), Strdup (Some 7), QueueSend 7 True]"
proof -
  have lt: "length (''ON'' @ [LF]) < BUF_SIZE - 1" by (simp add: BUF_SIZE_def)
  have c: "c_str (''ON'' @ [LF]) = ''ON'' @ [LF]" by (simp add: c_str_def NUL_def LF_def)
  have m: "min 3 (BUF_SIZE - 1) = 3" by (simp add: BUF_SIZE_def)
  show ?thesis
    using echo_before_enqueue[of "\<lparr>ev_type = UART_DATA, ev_size = 3\<rparr>"
        "\<lparr>rx = RxBytes (''ON'' @ [LF]), dup = Some 7\<rparr>" "''ON'' @ [LF]"
        "running_sys Map.empty []" "\<lparr>q_capacity = 5, q_items = []\<rparr>"] lt
    unfolding c
    by (simp add: running_sys_sel m)
qed

text \<open>
  Claim C4. On a \<^verbatim>\<open>UART_DATA\<close> event of size 0 the handler changes nothing. Otherwise it
  makes one read, for \<open>min size (BUF_SIZE - 1)\<close> bytes, which gives at most
  \<open>BUF_SIZE - 1\<close> bytes; and when the read returns zero or less, the state afterwards is the
  state before with nothing but that read call added: no echo, no forwarding, no log.
\<close>

theorem data_event_clamp:
  assumes ty: "ev_type event = UART_DATA" and len: "length (data s) = BUF_SIZE"
    and q: "command_queue s = Some q"
  shows "\<exists>s'. handle_uart_event env event s = Some s' \<and>
     (ev_size event = 0 \<longrightarrow> s' = s) \<and>
     (ev_size event \<noteq> 0 \<longrightarrow>
        (\<exists>len s1 rest.
           uart_read_bytes (rx env) (min (ev_size event) (BUF_SIZE - 1)) s = Some (len, s1) \<and>
           len \<le> int (BUF_SIZE - 1) \<and>
           trace s' = trace s @ UartRead (min (ev_size event) (BUF_SIZE - 1)) # rest \<and>
           (\<forall>a \<in> set rest. \<forall>n. a \<noteq> UartRead n) \<and>
           (len \<le> 0 \<longrightarrow> s' = s\<lparr>trace := trace s @ [UartRead (min (ev_size event) (BUF_SIZE - 1))]\<rparr>)))"
proof (cases "ev_size event = 0")
  case True
  then show ?thesis by (simp add: handle_uart_data[OF ty] on_uart_data_size0)
next
  case sz: False
  let ?n = "min (ev_size event) (BUF_SIZE - 1)"
  show ?thesis
  proof (cases "rx env")
    case RxError
    then show ?thesis
      using on_uart_data_nothing_read[OF sz, of env s] sz
      by (simp add: handle_uart_data[OF ty] uart_read_bytes_def emit_def)
  next
    case (RxBytes pending)
    show ?thesis
    proof (cases "take ?n pending = []")
      case True
      have rd: "uart_read_bytes (rx env) ?n s = Some (0, emit (UartRead ?n) s)"
        unfolding uart_read_bytes_def Let_def RxBytes rx_result.case True by simp
      have "on_uart_data env event s = Some (s\<lparr>trace := trace s @ [UartRead ?n]\<rparr>)"
        using on_uart_data_nothing_read[OF sz, of env s] RxBytes True by blast
      then show ?thesis
        using sz unfolding handle_uart_data[OF ty] rd by (simp add: emit_def)
    next
      case False
      define bs where "bs = take ?n pending"
      have ne: "bs \<noteq> []" using False by (simp only: bs_def not_False_eq_True)
      have l: "length bs \<le> BUF_SIZE - 1" by (simp add: bs_def)
      have l2: "length bs \<le> length (data s)" using l len by simp
      have rd: "uart_read_bytes (rx env) ?n s =
         Some (int (length bs), emit (UartRead ?n) (s\<lparr>data := bs @ drop (length bs) (data s)\<rparr>))"
        using l2 unfolding uart_read_bytes_def Let_def RxBytes rx_result.case bs_def[symmetric]
        by simp
      have pos: "\<not> int (length bs) \<le> 0" using ne by simp
      have li: "int (length bs) \<le> int (BUF_SIZE - 1)" using l by simp
      show ?thesis
        using on_uart_data_eq[OF sz RxBytes bs_def ne len] q sz li pos
        unfolding handle_uart_data[OF ty] rd
        by (cases "dup env") (simp_all add: Let_def)
    qed
  qed
qed


theorem data_event_clamp_witness:
  "(\<exists>s'. handle_uart_event \<lparr>rx = RxBytes (replicate 10000 (CHR ''a'')), dup = None\<rparr>
            \<lparr>ev_type = UART_DATA, ev_size = 10000\<rparr> (running_sys Map.empty []) = Some s' \<and>
          (\<exists>len s1 rest.
             uart_read_bytes (RxBytes (replicate 10000 (CHR ''a''))) 1023 (running_sys Map.empty [])
               = Some (len, s1) \<and>
             len \<le> 1023 \<and> trace s' = UartRead 1023 # rest \<and>
             (\<forall>a \<in> set rest. \<forall>n. a \<noteq> UartRead n))) \<and>
   handle_uart_event \<lparr>rx = RxError, dup = None\<rparr>
            \<lparr>ev_type = UART_DATA, ev_size = 0\<rparr> (running_sys Map.empty []) =
     Some (running_sys Map.empty []) \<and>
   handle_uart_event \<lparr>rx = RxError, dup = None\<rparr>
            \<lparr>ev_type = UART_DATA, ev_size = 3\<rparr> (running_sys Map.empty []) =
     Some ((running_sys Map.empty [])\<lparr>trace := [UartRead 3]\<rparr>)"
proof -
  have m: "min 10000 (BUF_SIZE - 1) = 1023" "int (BUF_SIZE - 1) = 1023" by (simp_all add: BUF_SIZE_def)
  have 1: "\<exists>s'. handle_uart_event \<lparr>rx = RxBytes (replicate 10000 (CHR ''a'')), dup = None\<rparr>
            \<lparr>ev_type = UART_DATA, ev_size = 10000\<rparr> (running_sys Map.empty []) = Some s' \<and>
          (\<exists>len s1 rest.
             uart_read_bytes (RxBytes (replicate 10000 (CHR ''a''))) 1023 (running_sys Map.empty [])
               = Some (len, s1) \<and>
             len \<le> 1023 \<and> trace s' = UartRead 1023 # rest \<and>
             (\<forall>a \<in> set rest. \<forall>n. a \<noteq> UartRead n))"
    using data_event_clamp[of "\<lparr>ev_type = UART_DATA, ev_size = 10000\<rparr>" "running_sys Map.empty []"
        "\<lparr>q_capacity = 5, q_items = []\<rparr>" "\<lparr>rx = RxBytes (replicate 10000 (CHR ''a'')), dup = None\<rparr>"]
    by (simp add: running_sys_sel BUF_SIZE_def) blast
  have 2: "handle_uart_event \<lparr>rx = RxError, dup = None\<rparr>
            \<lparr>ev_type = UART_DATA, ev_size = 0\<rparr> (running_sys Map.empty []) =
     Some (running_sys Map.empty [])"
    using data_event_clamp[of "\<lparr>ev_type = UART_DATA, ev_size = 0\<rparr>" "running_sys Map.empty []"
        "\<lparr>q_capacity = 5, q_items = []\<rparr>" "\<lparr>rx = RxError, dup = None\<rparr>"]
    by (simp add: running_sys_sel)
  have 3: "handle_uart_event \<lparr>rx = RxError, dup = None\<rparr>
            \<lparr>ev_type = UART_DATA, ev_size = 3\<rparr> (running_sys Map.empty []) =
     Some ((running_sys Map.empty [])\<lparr>trace := [UartRead 3]\<rparr>)"
    using data_event_clamp[of "\<lparr>ev_type = UART_DATA, ev_size = 3\<rparr>" "running_sys Map.empty []"
        "\<lparr>q_capacity = 5, q_items = []\<rparr>" "\<lparr>rx = RxError, dup = None\<rparr>"]
    by (auto simp: running_sys_sel BUF_SIZE_def uart_read_bytes_def)
  show ?thesis using 1 2 3 by blast
qed

lemma handle_uart_event_total:
  assumes len: "length (data s) = BUF_SIZE" and q: "command_queue s = Some q"
    and eq: "uart_event_queue s = Some evq"
  shows "\<exists>s'. handle_uart_event env event s = Some s' \<and> length (data s') = BUF_SIZE"
proof (cases "ev_type event")
  case UART_DATA
  then show ?thesis using on_uart_data_total[OF len q] by (simp add: handle_uart_event_def)
qed (use len eq in \<open>simp_all add: handle_uart_event_def esp_log_def emit_def Let_def\<close>)

lemma trim_loop_total:
  assumes "e < int (length cmd)"
  shows "\<exists>cmd'. trim_loop cmd e = Some cmd' \<and> length cmd' = length cmd"
proof (cases "e < 0")
  case True
  then show ?thesis by (subst trim_loop.simps) simp
next
  case False
  define m where "m = nat e + 1"
  have m: "m \<le> length cmd" and e: "e = int m - 1" using assms False by (simp_all add: m_def)
  have "length (trimmed_text (take m cmd)) \<le> m"
    using length_trimmed_text[of "take m cmd"] m by simp
  then show ?thesis using trim_loop_eq[OF m] m unfolding e by simp
qed

lemma read_in_bounds:
  assumes len: "length (data s) = BUF_SIZE"
  shows "\<exists>len s1. uart_read_bytes (rx env)
             (if ev_size event \<ge> BUF_SIZE then BUF_SIZE - 1 else ev_size event) s = Some (len, s1) \<and>
           len < int BUF_SIZE \<and> length (data s1) = BUF_SIZE \<and>
           (0 < len \<longrightarrow> (\<exists>d. store (data s1) len NUL = Some d))"
proof (cases "rx env")
  case RxError
  then show ?thesis using len by (simp add: uart_read_bytes_def emit_def)
next
  case (RxBytes pending)
  define bs where "bs = take (min (ev_size event) (BUF_SIZE - 1)) pending"
  have l: "length bs < BUF_SIZE" by (simp add: bs_def BUF_SIZE_def)
  show ?thesis
    using l len unfolding clamp_min uart_read_bytes_def RxBytes rx_result.case Let_def bs_def[symmetric]
    by (simp add: emit_def store_def)
qed

text \<open>
  Claim C9. When the bytes read contain a NUL, the echo still writes all of them, while
  the entry sent to the command stage holds only the bytes before the first NUL (and the
  terminator), a proper prefix; the command stage then acts on that prefix alone. When the
  first byte is NUL the entry is the empty string, no pin changes, and the command is
  logged as unknown.
\<close>

theorem interior_nul_truncates_command:
  assumes ty: "ev_type event = UART_DATA" and sz: "ev_size event \<noteq> 0"
    and rx: "rx env = RxBytes pending"
    and bs: "bs = take (min (ev_size event) (BUF_SIZE - 1)) pending"
    and nul: "NUL \<in> set bs"
    and len: "length (data s) = BUF_SIZE"
    and dup: "dup env = Some p"
    and q: "command_queue s = Some q" and e: "q_items q = []" and cap: "0 < q_capacity q"
  shows "\<exists>s' s''. handle_uart_event env event s = Some s' \<and>
      UartWrite bs \<in> set (trace s') \<and>
      heap s' p = Some (takeWhile (\<lambda>c. c \<noteq> NUL) bs @ [NUL]) \<and>
      length (takeWhile (\<lambda>c. c \<noteq> NUL) bs) < length bs \<and>
      command_processor_iteration s' = Some s'' \<and>
      gpio s'' = (if trimmed_text (takeWhile (\<lambda>c. c \<noteq> NUL) bs) = ''ON'' then (gpio s)(GPIO_CONTROL := 1)
                  else if trimmed_text (takeWhile (\<lambda>c. c \<noteq> NUL) bs) = ''OFF'' then (gpio s)(GPIO_CONTROL := 0)
                  else gpio s) \<and>
      (hd bs = NUL \<longrightarrow> heap s' p = Some [NUL] \<and> gpio s'' = gpio s \<and>
         Log LOGI ''Unknown command: %s'' [ArgStr []] \<in> set (trace s''))"
proof -
  have ne: "bs \<noteq> []" using nul by auto
  let ?t = "c_str bs"
  obtain s' where h: "handle_uart_event env event s = Some s'"
    and tr: "trace s' = trace s @ [UartRead (min (ev_size event) (BUF_SIZE - 1)),
                   Log LOGI ''Received: %s'' [ArgStr ?t], UartWrite bs, Strdup (Some p), QueueSend p True]"
    and hp: "heap s' p = Some (?t @ [NUL])"
    and cq: "command_queue s' = Some (q\<lparr>q_items := [p]\<rparr>)"
    and g: "gpio s' = gpio s"
    using on_uart_data_eq[OF sz rx bs ne len] dup q e cap
    by (simp add: handle_uart_data[OF ty] Let_def)
  have lt: "length ?t < length bs"
  proof -
    have "?t \<noteq> bs" using nul by (auto simp: c_str_def takeWhile_eq_all_conv)
    moreover have "length ?t \<le> length bs" by (simp add: c_str_def length_takeWhile_le)
    moreover have "length ?t = length bs \<Longrightarrow> ?t = bs"
      unfolding c_str_def by (metis takeWhile_eq_take take_all_iff order_refl)
    ultimately show ?thesis by (cases "length ?t = length bs") auto
  qed
  have nn: "NUL \<notin> set ?t" by (auto simp: c_str_def dest: set_takeWhileD)
  have c: "c_str (?t @ [NUL]) = ?t" by (rule c_str_append_NUL[OF nn])
  have z: "NUL \<in> set (?t @ [NUL])" by simp
  have i: "q_items (q\<lparr>q_items := [p]\<rparr>) = p # []" by simp
  obtain s'' where it: "command_processor_iteration s' = Some s''"
    and g2: "gpio s'' = (if trimmed_text ?t = ''ON'' then (gpio s)(GPIO_CONTROL := 1)
                  else if trimmed_text ?t = ''OFF'' then (gpio s)(GPIO_CONTROL := 0)
                  else gpio s)"
    and tr2: "trace s'' = trace s' @ Log LOGI ''Processing command: %s'' [ArgStr (trimmed_text ?t)] #
        (if trimmed_text ?t = ''ON'' then
           [GpioSetLevel GPIO_CONTROL 1, Log LOGI ''GPIO turned ON'' []]
         else if trimmed_text ?t = ''OFF'' then
           [GpioSetLevel GPIO_CONTROL 0, Log LOGI ''GPIO turned OFF'' []]
         else [Log LOGI ''Unknown command: %s'' [ArgStr (trimmed_text ?t)]]) @
        [Free p]"
    using command_processor_iteration_eq[OF cq i hp z] unfolding c g by simp
  have first: "hd bs = NUL \<Longrightarrow> ?t = []" using ne by (cases bs) (auto simp: c_str_def)
  have last: "hd bs = NUL \<longrightarrow> heap s' p = Some [NUL] \<and> gpio s'' = gpio s \<and>
         Log LOGI ''Unknown command: %s'' [ArgStr []] \<in> set (trace s'')"
    using first hp g2 tr2 by (auto simp: trimmed_text_def)
  show ?thesis
    using h tr hp lt it g2 last unfolding c_str_def
    by - (rule exI[of _ s'], rule exI[of _ s''], simp add: trimmed_text_def)
qed

theorem interior_nul_truncates_command_witness:
  "(\<exists>s' s''. handle_uart_event \<lparr>rx = RxBytes (''ON'' @ [NUL] @ ''x''), dup = Some 7\<rparr>
       \<lparr>ev_type = UART_DATA, ev_size = 4\<rparr> (running_sys Map.empty []) = Some s' \<and>
     UartWrite (''ON'' @ [NUL] @ ''x'') \<in> set (trace s') \<and>
     heap s' 7 = Some (''ON'' @ [NUL]) \<and>
     command_processor_iteration s' = Some s'' \<and>
     gpio s'' = (\<lambda>pin. 0)(GPIO_CONTROL := 1)) \<and>
   (\<exists>s' s''. handle_uart_event \<lparr>rx = RxBytes ([NUL] @ ''ON''), dup = Some 7\<rparr>
       \<lparr>ev_type = UART_DATA, ev_size = 3\<rparr> (running_sys Map.empty []) = Some s' \<and>
     UartWrite ([NUL] @ ''ON'') \<in> set (trace s') \<and>
     heap s' 7 = Some [NUL] \<and>
     command_processor_iteration s' = Some s'' \<and>
     gpio s'' = (\<lambda>pin. 0) \<and>
     Log LOGI ''Unknown command: %s'' [ArgStr []] \<in> set (trace s''))"
proof -
  have 1: "\<exists>s' s''. handle_uart_event \<lparr>rx = RxBytes (''ON'' @ [NUL] @ ''x''), dup = Some 7\<rparr>
       \<lparr>ev_type = UART_DATA, ev_size = 4\<rparr> (running_sys Map.empty []) = Some s' \<and>
     UartWrite (''ON'' @ [NUL] @ ''x'') \<in> set (trace s') \<and>
     heap s' 7 = Some (''ON'' @ [NUL]) \<and>
     command_processor_iteration s' = Some s'' \<and>
     gpio s'' = (\<lambda>pin. 0)(GPIO_CONTROL := 1)"
    using interior_nul_truncates_command[of "\<lparr>ev_type = UART_DATA, ev_size = 4\<rparr>"
      "\<lparr>rx = RxBytes (''ON'' @ [NUL] @ ''x''), dup = Some 7\<rparr>" "''ON'' @ [NUL] @ ''x''"
      "''ON'' @ [NUL] @ ''x''" "running_sys Map.empty []" 7 "\<lparr>q_capacity = 5, q_items = []\<rparr>"]
    by (simp add: running_sys_sel BUF_SIZE_def NUL_def trimmed_text_def is_eol_def LF_def CR_def)
  have 2: "\<exists>s' s''. handle_uart_event \<lparr>rx = RxBytes ([NUL] @ ''ON''), dup = Some 7\<rparr>
       \<lparr>ev_type = UART_DATA, ev_size = 3\<rparr> (running_sys Map.empty []) = Some s' \<and>
     UartWrite ([NUL] @ ''ON'') \<in> set (trace s') \<and>
     heap s' 7 = Some [NUL] \<and>
     command_processor_iteration s' = Some s'' \<and>
     gpio s'' = (\<lambda>pin. 0) \<and>
     Log LOGI ''Unknown command: %s'' [ArgStr []] \<in> set (trace s'')"
    using interior_nul_truncates_command[of "\<lparr>ev_type = UART_DATA, ev_size = 3\<rparr>"
      "\<lparr>rx = RxBytes ([NUL] @ ''ON''), dup = Some 7\<rparr>" "[NUL] @ ''ON''"
      "[NUL] @ ''ON''" "running_sys Map.empty []" 7 "\<lparr>q_capacity = 5, q_items = []\<rparr>"]
    by (simp add: running_sys_sel BUF_SIZE_def trimmed_text_def) blast
  show ?thesis using 1 2 by blast
qed

subsection \<open>What a step leaves alone\<close>

lemma process_command_frame:
  assumes "process_command cmd s = Some s'"
  shows "command_queue s' = command_queue s \<and> uart_task s' = uart_task s \<and>
         command_task s' = command_task s \<and> uart_event_queue s' = uart_event_queue s \<and>
         data s' = data s"
  using assms unfolding process_command_def
  by (auto simp: esp_log_def emit_def gpio_set_level_def free_def Let_def
      split: if_splits Option.bind_splits)

lemma command_processor_iteration_frame:
  assumes "command_processor_iteration s = Some s'"
  shows "uart_task s' = uart_task s \<and> command_task s' = command_task s \<and>
         uart_event_queue s' = uart_event_queue s \<and> data s' = data s \<and>
         (command_queue s' = command_queue s \<or>
          (\<exists>q x rest. command_queue s = Some q \<and> q_items q = x # rest \<and>
             command_queue s' = Some (q\<lparr>q_items := rest\<rparr>)))"
proof -
  obtain q where q: "command_queue s = Some q"
    using assms by (auto simp: command_processor_iteration_def split: Option.bind_splits)
  show ?thesis
  proof (cases "q_items q")
    case Nil
    then show ?thesis using assms q by (simp add: command_processor_iteration_def xQueueReceive_def)
  next
    case (Cons x rest)
    then have "process_command x (s\<lparr>command_queue := Some (q\<lparr>q_items := rest\<rparr>)\<rparr>) = Some s'"
      using assms q by (simp add: command_processor_iteration_def xQueueReceive_def)
    from process_command_frame[OF this] show ?thesis using q Cons by simp
  qed
qed

lemma handle_uart_event_frame:
  assumes "handle_uart_event env event s = Some s'"
  shows "gpio s' = gpio s \<and> uart_task s' = uart_task s \<and> command_task s' = command_task s \<and>
         (command_queue s' = command_queue s \<or>
          (\<exists>q p. command_queue s = Some q \<and> length (q_items q) < q_capacity q \<and>
                 command_queue s' = Some (q\<lparr>q_items := q_items q @ [p]\<rparr>)))"
proof (cases "ev_type event")
  case UART_DATA
  then show ?thesis using assms on_uart_data_frame[of env event s s'] by (simp add: handle_uart_event_def)
qed (use assms in \<open>auto simp: handle_uart_event_def esp_log_def emit_def Let_def split: Option.bind_splits\<close>)

lemma uart_event_task_iteration_frame:
  assumes "uart_event_task_iteration env s = Some s'"
  shows "gpio s' = gpio s \<and> uart_task s' = uart_task s \<and> command_task s' = command_task s \<and>
         (command_queue s' = command_queue s \<or>
          (\<exists>q p. command_queue s = Some q \<and> length (q_items q) < q_capacity q \<and>
                 command_queue s' = Some (q\<lparr>q_items := q_items q @ [p]\<rparr>)))"
proof -
  obtain q where q: "uart_event_queue s = Some q"
    using assms by (auto simp: uart_event_task_iteration_def split: Option.bind_splits)
  show ?thesis
  proof (cases "q_items q")
    case Nil
    then show ?thesis using assms q by (simp add: uart_event_task_iteration_def xQueueReceive_def)
  next
    case (Cons ev rest)
    then have "handle_uart_event env ev (s\<lparr>uart_event_queue := Some (q\<lparr>q_items := rest\<rparr>)\<rparr>) = Some s'"
      using assms q by (simp add: uart_event_task_iteration_def xQueueReceive_def)
    from handle_uart_event_frame[OF this] show ?thesis by simp
  qed
qed

lemma app_main_returned:
  assumes "app_main benv s0 = Returned s"
  shows "gpio s GPIO_CONTROL = 0 \<and>
         (if queue_create_ok benv then command_queue s = Some (xQueueCreate 5)
          else command_queue s = command_queue s0 \<and> uart_task s = uart_task s0 \<and>
               command_task s = command_task s0 \<and>
               trace s = trace s0 @ [Log LOGI ''Starting UART Echo Example'' [],
                 GpioSetLevel GPIO_CONTROL 0, Log LOGE ''Failed to create command queue'' []] \<and>
               gpio s = (gpio s0)(GPIO_CONTROL := 0) \<and> heap s = heap s0)"
  using assms unfolding app_main_def Let_def
  by (auto simp: esp_log_def emit_def gpio_set_level_def split: if_splits)

lemma app_main_all_ok:
  "app_main all_ok (power_on g) = Returned
     \<lparr>gpio = g(GPIO_CONTROL := 0), uart_event_queue = Some (xQueueCreate UART_QUEUE_SIZE),
      command_queue = Some (xQueueCreate 5), heap = Map.empty, data = [],
      uart_task = Created, command_task = Created,
      trace = [Log LOGI ''Starting UART Echo Example'' [], GpioSetLevel GPIO_CONTROL 0,
               Log LOGI ''UART Echo server started'' []]\<rparr>"
  by (simp add: app_main_def all_ok_def power_on_def esp_log_def emit_def gpio_set_level_def)

lemma step_queue_bounded:
  assumes "step s s'" and "\<forall>q. command_queue s = Some q \<longrightarrow> q_capacity q = n \<and> length (q_items q) \<le> n"
  shows "\<forall>q. command_queue s' = Some q \<longrightarrow> q_capacity q = n \<and> length (q_items q) \<le> n"
  using assms
proof (cases rule: step.cases)
  case (uart_turn env)
  from uart_event_task_iteration_frame[OF uart_turn(3)] assms(2) show ?thesis by auto
next
  case command_turn
  from command_processor_iteration_frame[OF command_turn(2)] assms(2) show ?thesis by auto
qed (auto simp: uart_event_task_start_def command_processor_task_start_def esp_log_def emit_def
      split: option.splits)

lemma reachable_queue_bounded:
  assumes "reachable benv g s"
  shows "\<forall>q. command_queue s = Some q \<longrightarrow> q_capacity q = 5 \<and> length (q_items q) \<le> 5"
  using assms
proof (induction rule: reachable.induct)
  case (at_start env g s)
  from app_main_returned[OF this] show ?case
    by (auto simp: xQueueCreate_def power_on_def split: if_splits)
next
  case (after_step env g s s')
  from step_queue_bounded[OF after_step(2) after_step(3)] show ?case .
qed

lemma step_changes_gpio:
  assumes "step s s'" and "gpio s' \<noteq> gpio s"
  shows "command_task s = InLoop \<and> command_processor_iteration s = Some s'"
  using assms
proof (cases rule: step.cases)
  case (uart_turn env)
  from uart_event_task_iteration_frame[OF uart_turn(3)] assms(2) show ?thesis by simp
qed (auto simp: uart_event_task_start_def command_processor_task_start_def esp_log_def emit_def
      split: option.splits)

lemma step_no_task:
  assumes "step s s'" and "uart_task s = NotCreated" and "command_task s = NotCreated"
  shows "uart_task s' = NotCreated \<and> command_task s' = NotCreated \<and> trace s' = trace s \<and>
         gpio s' = gpio s \<and> heap s' = heap s \<and> command_queue s' = command_queue s"
  using assms by (cases rule: step.cases) auto


lemma reachable_no_task:
  assumes "reachable benv g s'" and "\<not> queue_create_ok benv"
  shows "\<exists>s. app_main benv (power_on g) = Returned s \<and>
           uart_task s' = NotCreated \<and> command_task s' = NotCreated \<and>
           trace s' = trace s \<and> gpio s' = gpio s \<and> heap s' = heap s"
  using assms
proof (induction rule: reachable.induct)
  case (at_start env g s)
  from app_main_returned[OF at_start(1)] at_start show ?case
    by - (rule exI[of _ s], simp add: power_on_def)
next
  case (after_step env g s s')
  then show ?case using step_no_task[of s s'] by auto
qed

subsection \<open>The relay queue, the output pin and startup\<close>

text \<open>
  Claim C5. The command queue is created with capacity 5, and in every state the system
  reaches it has capacity 5 and holds at most 5 entries. When the handler finds the queue
  full, it returns with the heap and the queue as they were before (the copy it made is
  freed), after the echo of the bytes read, and its last calls are the failed send, the
  \<^verbatim>\<open>free\<close> of the copy and the error log.
\<close>

theorem relay_queue_bound_and_release:
  "(reachable benv g s \<longrightarrow>
      (\<forall>q. command_queue s = Some q \<longrightarrow> q_capacity q = 5 \<and> length (q_items q) \<le> 5)) \<and>
   (ev_type event = UART_DATA \<and> ev_size event \<noteq> 0 \<and> rx env = RxBytes pending \<and>
    bs = take (min (ev_size event) (BUF_SIZE - 1)) pending \<and> bs \<noteq> [] \<and>
    length (data t) = BUF_SIZE \<and> dup env = Some p \<and> heap t p = None \<and>
    command_queue t = Some q' \<and> q_capacity q' \<le> length (q_items q') \<longrightarrow>
      (\<exists>t'. handle_uart_event env event t = Some t' \<and>
         heap t' = heap t \<and> command_queue t' = command_queue t \<and>
         trace t' = trace t @
           [UartRead (min (ev_size event) (BUF_SIZE - 1)),
            Log LOGI ''Received: %s'' [ArgStr (c_str bs)],
            UartWrite bs, Strdup (Some p), QueueSend p False, Free p,
            Log LOGE ''Failed to send command to queue'' []]))"
proof (intro conjI impI)
  assume "reachable benv g s"
  then show "\<forall>q. command_queue s = Some q \<longrightarrow> q_capacity q = 5 \<and> length (q_items q) \<le> 5"
    by (rule reachable_queue_bounded)
next
  assume a: "ev_type event = UART_DATA \<and> ev_size event \<noteq> 0 \<and> rx env = RxBytes pending \<and>
    bs = take (min (ev_size event) (BUF_SIZE - 1)) pending \<and> bs \<noteq> [] \<and>
    length (data t) = BUF_SIZE \<and> dup env = Some p \<and> heap t p = None \<and>
    command_queue t = Some q' \<and> q_capacity q' \<le> length (q_items q')"
  then have sz: "ev_size event \<noteq> 0" and rx: "rx env = RxBytes pending"
    and bs: "bs = take (min (ev_size event) (BUF_SIZE - 1)) pending" and ne: "bs \<noteq> []"
    and len: "length (data t) = BUF_SIZE" and ty: "ev_type event = UART_DATA"
    by blast+
  have hp: "(heap t)(p := None) = heap t" using a by (simp add: fun_upd_idem_iff)
  show "\<exists>t'. handle_uart_event env event t = Some t' \<and>
         heap t' = heap t \<and> command_queue t' = command_queue t \<and>
         trace t' = trace t @
           [UartRead (min (ev_size event) (BUF_SIZE - 1)),
            Log LOGI ''Received: %s'' [ArgStr (c_str bs)],
            UartWrite bs, Strdup (Some p), QueueSend p False, Free p,
            Log LOGE ''Failed to send command to queue'' []]"
    using on_uart_data_eq[OF sz rx bs ne len] a hp
    by (simp add: handle_uart_data[OF ty] Let_def)
qed

theorem relay_queue_bound_and_release_witness:
  "(\<exists>s. app_main all_ok (power_on (\<lambda>pin. 0)) = Returned s \<and> reachable all_ok (\<lambda>pin. 0) s \<and>
        command_queue s = Some \<lparr>q_capacity = 5, q_items = []\<rparr>) \<and>
   (\<exists>t'. handle_uart_event \<lparr>rx = RxBytes (''ON'' @ [LF]), dup = Some 7\<rparr>
            \<lparr>ev_type = UART_DATA, ev_size = 3\<rparr> (running_sys Map.empty [1, 2, 3, 4, 5]) = Some t' \<and>
        heap t' = Map.empty \<and>
        command_queue t' = Some \<lparr>q_capacity = 5, q_items = [1, 2, 3, 4, 5]\<rparr> \<and>
        trace t' = [UartRead 3, Log LOGI ''Received: %s'' [ArgStr (''ON'' @ [LF])],
                    UartWrite (''ON'' @ [LF]), Strdup (Some 7), QueueSend 7 False, Free 7,
                    Log LOGE ''Failed to send command to queue'' []])"
proof -
  obtain s where s: "app_main all_ok (power_on (\<lambda>pin. 0)) = Returned s"
    and q: "command_queue s = Some \<lparr>q_capacity = 5, q_items = []\<rparr>"
    using app_main_all_ok[of "\<lambda>pin. 0"] by (simp add: xQueueCreate_def)
  have r: "reachable all_ok (\<lambda>pin. 0) s" using s by (rule reachable.at_start)
  note t = relay_queue_bound_and_release[of all_ok "\<lambda>pin. 0" s
      "\<lparr>ev_type = UART_DATA, ev_size = 3\<rparr>" "\<lparr>rx = RxBytes (''ON'' @ [LF]), dup = Some 7\<rparr>"
      "''ON'' @ [LF]" "''ON'' @ [LF]" "running_sys Map.empty [1, 2, 3, 4, 5]" 7
      "\<lparr>q_capacity = 5, q_items = [1, 2, 3, 4, 5]\<rparr>"]
  have c: "c_str (''ON'' @ [LF]) = ''ON'' @ [LF]" by (simp add: c_str_def NUL_def LF_def)
  have 1: "\<exists>s. app_main all_ok (power_on (\<lambda>pin. 0)) = Returned s \<and> reachable all_ok (\<lambda>pin. 0) s \<and>
        command_queue s = Some \<lparr>q_capacity = 5, q_items = []\<rparr>"
    using s r q t by blast
  have 2: "\<exists>t'. handle_uart_event \<lparr>rx = RxBytes (''ON'' @ [LF]), dup = Some 7\<rparr>
            \<lparr>ev_type = UART_DATA, ev_size = 3\<rparr> (running_sys Map.empty [1, 2, 3, 4, 5]) = Some t' \<and>
        heap t' = Map.empty \<and>
        command_queue t' = Some \<lparr>q_capacity = 5, q_items = [1, 2, 3, 4, 5]\<rparr> \<and>
        trace t' = [UartRead 3, Log LOGI ''Received: %s'' [ArgStr (''ON'' @ [LF])],
                    UartWrite (''ON'' @ [LF]), Strdup (Some 7), QueueSend 7 False, Free 7,
                    Log LOGE ''Failed to send command to queue'' []]"
    using t unfolding c by (simp add: running_sys_sel BUF_SIZE_def)
  show ?thesis using 1 2 by blast
qed


text \<open>
  Claim C7. When \<^verbatim>\<open>app_main\<close> returns, pin \<open>GPIO_CONTROL\<close> is at 0. The UART event handler
  and the UART task's prologue change no pin, and a step of the system that changes a pin
  is a turn of the command task.
\<close>

theorem output_state_initial_and_owned:
  "(app_main benv s0 = Returned s \<longrightarrow> gpio s GPIO_CONTROL = 0) \<and>
   (handle_uart_event env event t = Some t' \<longrightarrow> gpio t' = gpio t) \<and>
   gpio (uart_event_task_start m t) = gpio t \<and>
   (step u u' \<and> gpio u' \<noteq> gpio u \<longrightarrow>
      command_task u = InLoop \<and> command_processor_iteration u = Some u')"
  using app_main_returned[of benv s0 s] handle_uart_event_frame[of env event t t']
    step_changes_gpio[of u u']
  by (auto simp: uart_event_task_start_def esp_log_def emit_def split: option.split)

theorem output_state_initial_and_owned_witness:
  "(\<exists>s. app_main all_ok (power_on (\<lambda>pin. 1)) = Returned s \<and> gpio s GPIO_CONTROL = 0) \<and>
   (\<exists>t'. handle_uart_event \<lparr>rx = RxBytes (''ON'' @ [LF]), dup = Some 7\<rparr>
            \<lparr>ev_type = UART_DATA, ev_size = 3\<rparr> (running_sys Map.empty []) = Some t' \<and>
          gpio t' = (\<lambda>pin. 0)) \<and>
   (\<exists>u'. step (running_sys [7 \<mapsto> ''ON'' @ [NUL]] [7]) u' \<and>
          gpio u' \<noteq> gpio (running_sys [7 \<mapsto> ''ON'' @ [NUL]] [7]) \<and>
          command_task (running_sys [7 \<mapsto> ''ON'' @ [NUL]] [7]) = InLoop \<and>
          command_processor_iteration (running_sys [7 \<mapsto> ''ON'' @ [NUL]] [7]) = Some u')"
proof -
  obtain s where s: "app_main all_ok (power_on (\<lambda>pin. 1)) = Returned s"
    using app_main_all_ok by blast
  have 1: "\<exists>s. app_main all_ok (power_on (\<lambda>pin. 1)) = Returned s \<and> gpio s GPIO_CONTROL = 0"
    using s output_state_initial_and_owned[of all_ok "power_on (\<lambda>pin. 1)" s] by blast
  obtain t' where t: "handle_uart_event \<lparr>rx = RxBytes (''ON'' @ [LF]), dup = Some 7\<rparr>
            \<lparr>ev_type = UART_DATA, ev_size = 3\<rparr> (running_sys Map.empty []) = Some t'"
    using handle_uart_event_total[OF running_sys_sel(5) running_sys_sel(3) running_sys_sel(2)]
    by blast
  have 2: "\<exists>t'. handle_uart_event \<lparr>rx = RxBytes (''ON'' @ [LF]), dup = Some 7\<rparr>
            \<lparr>ev_type = UART_DATA, ev_size = 3\<rparr> (running_sys Map.empty []) = Some t' \<and>
          gpio t' = (\<lambda>pin. 0)"
    using t output_state_initial_and_owned[of _ _ _ "\<lparr>rx = RxBytes (''ON'' @ [LF]), dup = Some 7\<rparr>"
        "\<lparr>ev_type = UART_DATA, ev_size = 3\<rparr>" "running_sys Map.empty []" t']
    by (simp add: running_sys_sel)
  let ?u = "running_sys [7 \<mapsto> ''ON'' @ [NUL]] [7]"
  have z: "NUL \<in> set (''ON'' @ [NUL])" by simp
  have tt: "trimmed_text (c_str (''ON'' @ [NUL])) = ''ON''"
    by (simp add: trimmed_text_def c_str_def is_eol_def NUL_def LF_def CR_def)
  obtain u' where it: "command_processor_iteration ?u = Some u'" and g: "gpio u' GPIO_CONTROL = 1"
    using command_processor_iteration_eq[of ?u "\<lparr>q_capacity = 5, q_items = [7]\<rparr>" 7 "[]" "''ON'' @ [NUL]"] z
    unfolding tt by (simp add: running_sys_sel)
  have st: "step ?u u'" using it by (intro step.command_turn) (simp_all add: running_sys_sel)
  have ne: "gpio u' \<noteq> gpio ?u"
  proof
    assume "gpio u' = gpio ?u"
    then have "gpio u' GPIO_CONTROL = gpio ?u GPIO_CONTROL" by simp
    then show False using g by (simp add: running_sys_sel)
  qed
  have 3: "\<exists>u'. step ?u u' \<and> gpio u' \<noteq> gpio ?u \<and> command_task ?u = InLoop \<and>
          command_processor_iteration ?u = Some u'"
    using st ne output_state_initial_and_owned[of _ _ _ _ _ _ _ _ ?u u'] by blast
  show ?thesis using 1 2 3 by blast
qed

text \<open>
  Claim C8. When the calls before it succeed and the creation of the command queue
  fails, \<^verbatim>\<open>app_main\<close> returns with the error logged last, the queue handle still NULL and
  no task created; and in every state reached afterwards both tasks are still not created
  and the trace, the pins and the heap are as \<^verbatim>\<open>app_main\<close> left them: no stage ever runs.
\<close>

theorem queue_creation_failure_aborts:
  assumes "gpio_config_ok benv" and "uart_param_config_ok benv" and "uart_set_pin_ok benv"
    and "uart_driver_install_ok benv" and "\<not> queue_create_ok benv"
  shows "\<exists>s. app_main benv (power_on g) = Returned s \<and>
           trace s = [Log LOGI ''Starting UART Echo Example'' [], GpioSetLevel GPIO_CONTROL 0,
                      Log LOGE ''Failed to create command queue'' []] \<and>
           command_queue s = None \<and> uart_task s = NotCreated \<and> command_task s = NotCreated \<and>
           (\<forall>s'. reachable benv g s' \<longrightarrow>
              uart_task s' = NotCreated \<and> command_task s' = NotCreated \<and>
              trace s' = trace s \<and> gpio s' = gpio s \<and> heap s' = heap s)"
proof -
  obtain s where s: "app_main benv (power_on g) = Returned s"
    using assms by (simp add: app_main_def Let_def)
  note f = app_main_returned[OF s]
  have inv: "uart_task s' = NotCreated \<and> command_task s' = NotCreated \<and>
              trace s' = trace s \<and> gpio s' = gpio s \<and> heap s' = heap s"
    if "reachable benv g s'" for s'
    using reachable_no_task[OF that assms(5)] s by auto
  show ?thesis using s f assms(5) inv by (auto simp: power_on_def)
qed

theorem queue_creation_failure_aborts_witness:
  "\<exists>s. app_main (all_ok\<lparr>queue_create_ok := False\<rparr>) (power_on (\<lambda>pin. 1)) = Returned s \<and>
       trace s = [Log LOGI ''Starting UART Echo Example'' [], GpioSetLevel GPIO_CONTROL 0,
                  Log LOGE ''Failed to create command queue'' []] \<and>
       command_queue s = None \<and> uart_task s = NotCreated \<and> command_task s = NotCreated \<and>
       reachable (all_ok\<lparr>queue_create_ok := False\<rparr>) (\<lambda>pin. 1) s"
proof -
  obtain s where s: "app_main (all_ok\<lparr>queue_create_ok := False\<rparr>) (power_on (\<lambda>pin. 1)) = Returned s"
    and r: "trace s = [Log LOGI ''Starting UART Echo Example'' [], GpioSetLevel GPIO_CONTROL 0,
                  Log LOGE ''Failed to create command queue'' []] \<and>
       command_queue s = None \<and> uart_task s = NotCreated \<and> command_task s = NotCreated"
    using queue_creation_failure_aborts[of "all_ok\<lparr>queue_create_ok := False\<rparr>" "\<lambda>pin. 1"]
    by (auto simp: all_ok_def)
  have "reachable (all_ok\<lparr>queue_create_ok := False\<rparr>) (\<lambda>pin. 1) s"
    using s by (rule reachable.at_start)
  then show ?thesis using s r by blast
qed

subsection \<open>No turn of a task faults\<close>

lemma on_uart_data_effect:
  assumes r: "on_uart_data env event s = Some s'" and len: "length (data s) = BUF_SIZE"
  shows "length (data s') = BUF_SIZE \<and> uart_event_queue s' = uart_event_queue s \<and>
         ((command_queue s' = command_queue s \<and>
           (\<exists>p. heap s' = heap s \<or> (dup env = Some p \<and> heap s' = (heap s)(p := None)))) \<or>
          (\<exists>q p buf. dup env = Some p \<and> command_queue s = Some q \<and>
             command_queue s' = Some (q\<lparr>q_items := q_items q @ [p]\<rparr>) \<and>
             heap s' = (heap s)(p \<mapsto> buf) \<and> NUL \<in> set buf))"
proof (cases "ev_size event = 0")
  case True
  then show ?thesis using r len by (simp add: on_uart_data_size0)
next
  case sz: False
  let ?n = "min (ev_size event) (BUF_SIZE - 1)"
  show ?thesis
  proof (cases "rx env")
    case RxError
    then show ?thesis using on_uart_data_nothing_read[OF sz, of env s] r len by auto
  next
    case (RxBytes pending)
    define bs where "bs = take ?n pending"
    show ?thesis
    proof (cases "bs = []")
      case True
      then show ?thesis
        using on_uart_data_nothing_read[OF sz, of env s] RxBytes r len unfolding bs_def by auto
    next
      case False
      have l: "length bs < BUF_SIZE" by (simp add: bs_def BUF_SIZE_def)
      note e = on_uart_data_eq[OF sz RxBytes bs_def False len]
      show ?thesis
      proof (cases "dup env")
        case None
        then show ?thesis using e r len l by (auto simp: Let_def)
      next
        case (Some p)
        then obtain q where q: "command_queue s = Some q"
          using e r by (cases "command_queue s") (auto simp: Let_def)
        show ?thesis
        proof (cases "length (q_items q) < q_capacity q")
          case True
          then show ?thesis using e r len l Some q by (auto simp: Let_def)
        next
          case False
          then show ?thesis using e r len l Some q by (auto simp: Let_def)
        qed
      qed
    qed
  qed
qed

lemma handle_uart_event_effect:
  assumes r: "handle_uart_event env event s = Some s'" and len: "length (data s) = BUF_SIZE"
  shows "length (data s') = BUF_SIZE \<and>
         (uart_event_queue s \<noteq> None \<longrightarrow> uart_event_queue s' \<noteq> None) \<and>
         ((command_queue s' = command_queue s \<and>
           (\<exists>p. heap s' = heap s \<or> (dup env = Some p \<and> heap s' = (heap s)(p := None)))) \<or>
          (\<exists>q p buf. dup env = Some p \<and> command_queue s = Some q \<and>
             command_queue s' = Some (q\<lparr>q_items := q_items q @ [p]\<rparr>) \<and>
             heap s' = (heap s)(p \<mapsto> buf) \<and> NUL \<in> set buf))"
proof (cases "ev_type event")
  case UART_DATA
  then show ?thesis using r on_uart_data_effect[of env event s s', OF _ len]
    by (simp add: handle_uart_event_def)
qed (use r len in \<open>auto simp: handle_uart_event_def esp_log_def emit_def Let_def split: Option.bind_splits\<close>)

lemma uart_turn_wf:
  assumes wf: "wf_sys s" and run: "uart_task s = InLoop"
    and fresh: "\<forall>p. dup env = Some p \<longrightarrow> heap s p = None"
    and r: "uart_event_task_iteration env s = Some s'"
  shows "wf_sys s'"
proof -
  obtain q where q: "uart_event_queue s = Some q"
    using r by (auto simp: uart_event_task_iteration_def split: Option.bind_splits)
  have len: "length (data s) = BUF_SIZE" using wf run by (simp add: wf_sys_def)
  show ?thesis
  proof (cases "q_items q")
    case Nil
    then show ?thesis using r q wf by (simp add: uart_event_task_iteration_def xQueueReceive_def)
  next
    case (Cons ev rest)
    let ?s0 = "s\<lparr>uart_event_queue := Some (q\<lparr>q_items := rest\<rparr>)\<rparr>"
    have h: "handle_uart_event env ev ?s0 = Some s'"
      using r q Cons by (simp add: uart_event_task_iteration_def xQueueReceive_def)
    have len0: "length (data ?s0) = BUF_SIZE" using len by simp
    note e = handle_uart_event_effect[OF h len0]
    note f = handle_uart_event_frame[OF h]
    have tasks: "uart_task s' = InLoop" "command_task s' = command_task s" using f run by simp_all
    have evq: "uart_event_queue s' \<noteq> None" using e by simp
    have cq0: "command_queue s \<noteq> None" using wf run by (simp add: wf_sys_def)
    from e have "(command_queue s' = command_queue s \<and>
           (\<exists>p. heap s' = heap s \<or> (dup env = Some p \<and> heap s' = (heap s)(p := None)))) \<or>
          (\<exists>q p buf. dup env = Some p \<and> command_queue s = Some q \<and>
             command_queue s' = Some (q\<lparr>q_items := q_items q @ [p]\<rparr>) \<and>
             heap s' = (heap s)(p \<mapsto> buf) \<and> NUL \<in> set buf)"
      by simp
    then consider (same) "command_queue s' = command_queue s" "heap s' = heap s"
      | (sent) cq p buf where "dup env = Some p" "command_queue s = Some cq"
          "command_queue s' = Some (cq\<lparr>q_items := q_items cq @ [p]\<rparr>)"
          "heap s' = (heap s)(p \<mapsto> buf)" "NUL \<in> set buf"
      using fresh by (auto simp: fun_upd_idem_iff)
    then show ?thesis
    proof cases
      case same
      then show ?thesis using wf tasks evq cq0 e by (simp add: wf_sys_def)
    next
      case sent
      have fr: "heap s p = None" using fresh sent(1) by simp
      have old: "distinct (q_items cq)"
        "\<forall>p' \<in> set (q_items cq). \<exists>b. heap s p' = Some b \<and> NUL \<in> set b"
        using wf sent(2) by (simp_all add: wf_sys_def)
      have notin: "p \<notin> set (q_items cq)" using old(2) fr by auto
      show ?thesis
        using old notin sent tasks evq e by (auto simp: wf_sys_def)
    qed
  qed
qed

lemma command_turn_total:
  assumes wf: "wf_sys s" and run: "command_task s = InLoop"
  shows "\<exists>s'. command_processor_iteration s = Some s' \<and> wf_sys s'"
proof -
  obtain q where q: "command_queue s = Some q" using wf run by (auto simp: wf_sys_def)
  show ?thesis
  proof (cases "q_items q")
    case Nil
    then show ?thesis using q wf by (simp add: command_processor_iteration_def xQueueReceive_def)
  next
    case (Cons x rest)
    have d: "distinct (x # rest)"
      and live: "\<forall>p \<in> set (x # rest). \<exists>b. heap s p = Some b \<and> NUL \<in> set b"
      using wf q Cons by (auto simp: wf_sys_def)
    obtain buf where hb: "heap s x = Some buf" and z: "NUL \<in> set buf" using live by auto
    note e = command_processor_iteration_eq[OF q Cons hb z]
    have nx: "x \<notin> set rest" using d by simp
    have "wf_sys (the (command_processor_iteration s))"
      unfolding e using wf d live nx by (auto simp: wf_sys_def)
    then show ?thesis using e by simp
  qed
qed

lemma step_wf:
  assumes "step s s'" and "wf_sys s"
  shows "wf_sys s'"
  using assms
proof (cases rule: step.cases)
  case (uart_turn env)
  then show ?thesis using uart_turn_wf[OF assms(2)] by blast
next
  case command_turn
  then show ?thesis using command_turn_total[OF assms(2)] by auto
qed (auto simp: wf_sys_def uart_event_task_start_def command_processor_task_start_def esp_log_def
      emit_def xQueueSend_def split: option.splits)

lemma reachable_wf:
  assumes "reachable benv g s"
  shows "wf_sys s"
  using assms
proof (induction rule: reachable.induct)
  case (at_start env g s)
  then show ?case
    unfolding app_main_def Let_def
    by (auto simp: wf_sys_def power_on_def esp_log_def emit_def gpio_set_level_def xQueueCreate_def
        split: if_splits)
next
  case (after_step env g s s')
  then show ?case using step_wf by blast
qed

lemma uart_turn_total:
  assumes wf: "wf_sys s" and run: "uart_task s = InLoop"
  shows "\<exists>s'. uart_event_task_iteration env s = Some s'"
proof -
  obtain q cq where q: "uart_event_queue s = Some q" and cq: "command_queue s = Some cq"
    and len: "length (data s) = BUF_SIZE"
    using wf run by (auto simp: wf_sys_def)
  show ?thesis
  proof (cases "q_items q")
    case Nil
    then show ?thesis using q by (simp add: uart_event_task_iteration_def xQueueReceive_def)
  next
    case (Cons ev rest)
    let ?s0 = "s\<lparr>uart_event_queue := Some (q\<lparr>q_items := rest\<rparr>)\<rparr>"
    have "\<exists>s'. handle_uart_event env ev ?s0 = Some s' \<and> length (data s') = BUF_SIZE"
      using len cq by (intro handle_uart_event_total[of ?s0 cq "q\<lparr>q_items := rest\<rparr>"]) simp_all
    then show ?thesis using q Cons by (auto simp: uart_event_task_iteration_def xQueueReceive_def)
  qed
qed

text \<open>
  Claim C10. Every buffer access stays in bounds. With \<^verbatim>\<open>data\<close> of \<open>BUF_SIZE\<close> bytes the
  read for the clamped size returns fewer than \<open>BUF_SIZE\<close> bytes, so the store of the
  terminator at index \<open>len\<close> succeeds, and the handler as a whole returns, for every event
  and every answer of the driver and the allocator. The trim loop returns from every start
  offset below the buffer's length, negative ones included, without changing the buffer's
  length; the trim of a NUL-terminated entry returns; and the trim of an entry that holds
  the empty string leaves it as it was. In every state the system reaches, a turn of
  either task in its loop returns: no access of the pipeline is ever out of bounds.
\<close>

theorem buffer_accesses_in_bounds:
  "(length (data s) = BUF_SIZE \<longrightarrow>
      (\<exists>len s1. uart_read_bytes (rx env)
             (if ev_size event \<ge> BUF_SIZE then BUF_SIZE - 1 else ev_size event) s = Some (len, s1) \<and>
           len < int BUF_SIZE \<and> length (data s1) = BUF_SIZE \<and>
           (0 < len \<longrightarrow> (\<exists>d. store (data s1) len NUL = Some d)))) \<and>
   (length (data s) = BUF_SIZE \<and> command_queue s \<noteq> None \<and> uart_event_queue s \<noteq> None \<longrightarrow>
      (\<exists>s'. handle_uart_event env event s = Some s' \<and> length (data s') = BUF_SIZE)) \<and>
   (e < int (length cmd) \<longrightarrow>
      (\<exists>cmd'. trim_loop cmd e = Some cmd' \<and> length cmd' = length cmd)) \<and>
   (NUL \<in> set buf \<longrightarrow> (\<exists>buf'. trim buf = Some buf' \<and> length buf' = length buf)) \<and>
   trim (NUL # r) = Some (NUL # r) \<and>
   (reachable benv g t \<longrightarrow>
      (uart_task t = InLoop \<longrightarrow> (\<exists>t'. uart_event_task_iteration env t = Some t')) \<and>
      (command_task t = InLoop \<longrightarrow> (\<exists>t'. command_processor_iteration t = Some t')))"
proof -
  have a: "strlen (NUL # r) = Some 0" by simp
  have b: "trim (NUL # r) = Some (NUL # r)"
    unfolding trim_def a by (simp add: trim_loop.simps[of _ "- 1"])
  have c: "(uart_task t = InLoop \<longrightarrow> (\<exists>t'. uart_event_task_iteration env t = Some t')) \<and>
      (command_task t = InLoop \<longrightarrow> (\<exists>t'. command_processor_iteration t = Some t'))"
    if "reachable benv g t"
    using reachable_wf[OF that] uart_turn_total[of t env] command_turn_total[of t] by blast
  show ?thesis
    using b c read_in_bounds[of s env event] handle_uart_event_total[of s _ _ env event]
      trim_loop_total[of e cmd] trim_c_str[of buf]
    by blast
qed

theorem buffer_accesses_in_bounds_witness:
  "length (data (running_sys Map.empty [])) = BUF_SIZE \<and>
   command_queue (running_sys Map.empty []) \<noteq> None \<and>
   uart_event_queue (running_sys Map.empty []) \<noteq> None \<and>
   (\<exists>len s1. uart_read_bytes (RxBytes (replicate 2000 (CHR ''a''))) 1023 (running_sys Map.empty [])
        = Some (len, s1) \<and> len < 1024 \<and> length (data s1) = 1024 \<and>
        (0 < len \<longrightarrow> (\<exists>d. store (data s1) len NUL = Some d))) \<and>
   (\<exists>s'. handle_uart_event \<lparr>rx = RxBytes (replicate 2000 (CHR ''a'')), dup = Some 3\<rparr>
          \<lparr>ev_type = UART_DATA, ev_size = 2000\<rparr> (running_sys Map.empty []) = Some s' \<and>
        length (data s') = BUF_SIZE) \<and>
   (- 1) < int (length [NUL]) \<and> trim_loop [NUL] (- 1) = Some [NUL] \<and>
   NUL \<in> set [LF, CR, NUL] \<and> trim [LF, CR, NUL] = Some [NUL, NUL, NUL] \<and>
   trim [NUL] = Some [NUL] \<and>
   (\<exists>s0 t. app_main all_ok (power_on (\<lambda>pin. 0)) = Returned s0 \<and>
      t = command_processor_task_start (uart_event_task_start (Some (\<lambda>i. CHR ''x'')) s0) \<and>
      reachable all_ok (\<lambda>pin. 0) t \<and> uart_task t = InLoop \<and> command_task t = InLoop \<and>
      (\<exists>t'. uart_event_task_iteration \<lparr>rx = RxBytes (replicate 2000 (CHR ''a'')), dup = Some 3\<rparr> t = Some t') \<and>
      (\<exists>t'. command_processor_iteration t = Some t'))"
proof -
  obtain s0 where s0: "app_main all_ok (power_on (\<lambda>pin. 0)) = Returned s0"
    and u0: "uart_task s0 = Created" and c0: "command_task s0 = Created"
    using app_main_all_ok[of "\<lambda>pin. 0"] by simp
  let ?s1 = "uart_event_task_start (Some (\<lambda>i. CHR ''x'')) s0"
  let ?t = "command_processor_task_start ?s1"
  have r0: "reachable all_ok (\<lambda>pin. 0) s0" using s0 by (rule reachable.at_start)
  have r1: "reachable all_ok (\<lambda>pin. 0) ?s1"
    using r0 u0 by (intro reachable.after_step[OF r0] step.uart_start)
  have c1: "command_task ?s1 = Created" using c0 by (simp add: uart_event_task_start_def)
  have rt: "reachable all_ok (\<lambda>pin. 0) ?t"
    using c1 by (intro reachable.after_step[OF r1] step.command_start)
  have ut: "uart_task ?t = InLoop" "command_task ?t = InLoop"
    by (simp_all add: uart_event_task_start_def command_processor_task_start_def)
  note t = buffer_accesses_in_bounds[of "running_sys Map.empty []"
      "\<lparr>rx = RxBytes (replicate 2000 (CHR ''a'')), dup = Some 3\<rparr>"
      "\<lparr>ev_type = UART_DATA, ev_size = 2000\<rparr>" "- 1" "[NUL]" "[LF, CR, NUL]" "[]"
      all_ok "\<lambda>pin. 0" ?t]
  have 1: "trim_loop [NUL] (- 1) = Some [NUL]" by (simp add: trim_loop.simps[of _ "- 1"])
  have 2: "trim [LF, CR, NUL] = Some [NUL, NUL, NUL]" by code_simp
  have 3: "\<exists>s0 t. app_main all_ok (power_on (\<lambda>pin. 0)) = Returned s0 \<and>
      t = command_processor_task_start (uart_event_task_start (Some (\<lambda>i. CHR ''x'')) s0) \<and>
      reachable all_ok (\<lambda>pin. 0) t \<and> uart_task t = InLoop \<and> command_task t = InLoop \<and>
      (\<exists>t'. uart_event_task_iteration \<lparr>rx = RxBytes (replicate 2000 (CHR ''a'')), dup = Some 3\<rparr> t = Some t') \<and>
      (\<exists>t'. command_processor_iteration t = Some t')"
    using s0 rt ut t by blast
  have 4: "length (data (running_sys Map.empty [])) = BUF_SIZE \<and>
   command_queue (running_sys Map.empty []) \<noteq> None \<and>
   uart_event_queue (running_sys Map.empty []) \<noteq> None \<and>
   (\<exists>len s1. uart_read_bytes (RxBytes (replicate 2000 (CHR ''a''))) 1023 (running_sys Map.empty [])
        = Some (len, s1) \<and> len < 1024 \<and> length (data s1) = 1024 \<and>
        (0 < len \<longrightarrow> (\<exists>d. store (data s1) len NUL = Some d))) \<and>
   (\<exists>s'. handle_uart_event \<lparr>rx = RxBytes (replicate 2000 (CHR ''a'')), dup = Some 3\<rparr>
          \<lparr>ev_type = UART_DATA, ev_size = 2000\<rparr> (running_sys Map.empty []) = Some s' \<and>
        length (data s') = BUF_SIZE) \<and>
   (- 1) < int (length [NUL]) \<and> trim_loop [NUL] (- 1) = Some [NUL] \<and>
   NUL \<in> set [LF, CR, NUL] \<and> trim [LF, CR, NUL] = Some [NUL, NUL, NUL] \<and>
   trim [NUL] = Some [NUL]"
    using t 1 2 by (simp add: running_sys_sel BUF_SIZE_def)
  show ?thesis using 3 4 by blast
qed

end
